theory Spec2Isabelle
  imports Complex_Main "HOL-Library.AList"
begin

section \<open>JavaScript values\<close>

text \<open>
  A JavaScript number is an IEEE double. Every finite double is a rational, and the
  program only compares numbers (\<open>===\<close>, \<open><\<close>, \<open>isNaN\<close>), so a finite number is
  modelled by its rational value (the two zeros coincide, as they do under \<open>===\<close>).
\<close>

datatype jsnum = Fin rat | NaN | PosInf | NegInf

text \<open>
  The values the program handles: what \<open>JSON.parse\<close> produces, and \<open>undefined\<close>.
  A string is the list of its code units (those below 256); an object is the list of
  its own enumerable properties in the order the engine enumerates them.
\<close>

datatype jsval =
    JUndefined
  | JNull
  | JBool bool
  | JNum jsnum
  | JStr string
  | JArr "jsval list"
  | JObj "(string \<times> jsval) list"

datatype error = ValidationError | TypeError

text \<open>
  Built-ins whose algorithms live in the engine and not in the repository are taken as
  parameters: \<open>JSON.parse\<close> (\<open>None\<close> when it throws), \<open>Number\<close> applied to a
  string, whether \<open>new URL\<close> accepts a string (the test behind zod's \<open>.url()\<close>),
  and the conversion of a number to a string.
\<close>

record engine =
  json_parse :: "string \<Rightarrow> jsval option"
  to_number :: "string \<Rightarrow> jsnum"
  url_parses :: "string \<Rightarrow> bool"
  number_to_string :: "jsnum \<Rightarrow> string"

text \<open>\<open>a === b\<close> on numbers: \<open>NaN\<close> equals nothing.\<close>

definition strict_eq_num :: "jsnum \<Rightarrow> jsnum \<Rightarrow> bool" where
  "strict_eq_num a b = (a \<noteq> NaN \<and> a = b)"

text \<open>Property read \<open>obj[key]\<close> and the own-property test, on a property list.\<close>

definition js_get :: "(string \<times> jsval) list \<Rightarrow> string \<Rightarrow> jsval" where
  "js_get props key = (case map_of props key of None \<Rightarrow> JUndefined | Some v \<Rightarrow> v)"

definition js_has :: "(string \<times> jsval) list \<Rightarrow> string \<Rightarrow> bool" where
  "js_has props key = (map_of props key \<noteq> None)"

section \<open>String utilities\<close>

definition is_space :: "char \<Rightarrow> bool" where
  "is_space c = (c \<in> set [CHR 0x09, CHR 0x0A, CHR 0x0B, CHR 0x0C, CHR 0x0D, CHR 0x20, CHR 0xA0])"

definition trim :: "string \<Rightarrow> string" where
  "trim s = rev (dropWhile is_space (rev (dropWhile is_space s)))"

definition lower_char :: "char \<Rightarrow> char" where
  "lower_char c =
     (let n = (of_char c :: nat)
      in if (65 \<le> n \<and> n \<le> 90) \<or> (192 \<le> n \<and> n \<le> 222 \<and> n \<noteq> 215)
         then char_of (n + 32) else c)"

definition toLowerCase :: "string \<Rightarrow> string" where
  "toLowerCase s = map lower_char s"

definition startsWith :: "string \<Rightarrow> string \<Rightarrow> bool" where
  "startsWith s p = (take (length p) s = p)"

fun split_on :: "char \<Rightarrow> string \<Rightarrow> string list" where
  "split_on c [] = [[]]"
| "split_on c (x # xs) =
     (if x = c then [] # split_on c xs
      else (case split_on c xs of
              [] \<Rightarrow> [[x]]
            | w # ws \<Rightarrow> (x # w) # ws))"

fun join_with :: "string \<Rightarrow> string list \<Rightarrow> string" where
  "join_with sep [] = []"
| "join_with sep [x] = x"
| "join_with sep (x # y # zs) = x @ sep @ join_with sep (y # zs)"

text \<open>
  \<open>String(v)\<close> as \<open>Array.prototype.join\<close> applies it to an element: \<open>undefined\<close>
  and \<open>null\<close> give the empty string, an array is joined in turn.
\<close>

fun join_element :: "engine \<Rightarrow> jsval \<Rightarrow> string" where
  "join_element e JUndefined = []"
| "join_element e JNull = []"
| "join_element e (JBool b) = (if b then ''true'' else ''false'')"
| "join_element e (JNum n) = number_to_string e n"
| "join_element e (JStr s) = s"
| "join_element e (JArr xs) = join_with '','' (map (join_element e) xs)"
| "join_element e (JObj ps) = ''[object Object]''"

text \<open>\<open>stringUtils\<close> of the source.\<close>

definition arrayToCommaString :: "engine \<Rightarrow> jsval list \<Rightarrow> string" where
  "arrayToCommaString e array = join_with '','' (map (join_element e) array)"

definition commaStringToArray :: "string \<Rightarrow> string list" where
  "commaStringToArray array = map trim (split_on CHR 0x2C array)"

section \<open>Chain registry\<close>

datatype chain = Chain (chain_name: string) (chain_id: jsnum)

text \<open>
  Modelled from the spec: the chain objects come from the package \<open>viem/chains\<close>, which
  is not part of the repository; their ids are the ones the specification lists
  (mainnet 1, polygon 137, arbitrum 42161, optimism 10, gnosis 100, base 8453).
\<close>

definition mainnet :: chain where "mainnet = Chain ''mainnet'' (Fin 1)"
definition polygon :: chain where "polygon = Chain ''polygon'' (Fin 137)"
definition arbitrum :: chain where "arbitrum = Chain ''arbitrum'' (Fin 42161)"
definition optimism :: chain where "optimism = Chain ''optimism'' (Fin 10)"
definition gnosis :: chain where "gnosis = Chain ''gnosis'' (Fin 100)"
definition base :: chain where "base = Chain ''base'' (Fin 8453)"

definition SUPPORTED_CHAINS :: "chain list" where
  "SUPPORTED_CHAINS = [mainnet, polygon, arbitrum, optimism, gnosis, base]"

definition CHAIN_SHORT_NAMES :: "(string \<times> jsnum) list" where
  "CHAIN_SHORT_NAMES =
     [(''eth'', chain_id mainnet),
      (''oeth'', chain_id optimism),
      (''op'', chain_id optimism),
      (''pol'', chain_id polygon),
      (''gno'', chain_id gnosis),
      (''arb1'', chain_id arbitrum),
      (''base'', chain_id base)]"

text \<open>
  \<open>Object.entries(CHAIN_SHORT_NAMES).find(([_, id]) => id === chainId)?.[0]\<close>:
  the entries come in declaration order (no key is an array index).
\<close>

definition chainIdToShortName :: "jsnum \<Rightarrow> string option" where
  "chainIdToShortName chainId =
     map_option fst (find (\<lambda>(_, i). strict_eq_num i chainId) CHAIN_SHORT_NAMES)"

text \<open>\<open>z.number().safeParse(value).success\<close>: a number that is not \<open>NaN\<close>; zod does not coerce.\<close>

definition isValidNumber :: "jsval \<Rightarrow> bool" where
  "isValidNumber v = (case v of JNum n \<Rightarrow> n \<noteq> NaN | _ \<Rightarrow> False)"

text \<open>
  The names \<open>key in CHAIN_SHORT_NAMES\<close> finds on the prototype of an object literal,
  \<open>Object.prototype\<close>.
\<close>

definition object_prototype_names :: "string list" where
  "object_prototype_names =
     [''constructor'', ''__defineGetter__'', ''__defineSetter__'', ''hasOwnProperty'',
      ''__lookupGetter__'', ''__lookupSetter__'', ''isPrototypeOf'', ''propertyIsEnumerable'',
      ''toString'', ''valueOf'', ''__proto__'', ''toLocaleString'']"

text \<open>
  What \<open>resolveChainIdOrShortName\<close> returns: a number, \<open>undefined\<close>, or the member
  of \<open>Object.prototype\<close> that the \<open>in\<close> test let through.
\<close>

datatype resolved = Resolved jsnum | Unresolved | Inherited string

definition resolveChainIdOrShortName :: "engine \<Rightarrow> string \<Rightarrow> resolved" where
  "resolveChainIdOrShortName e chainIdOrShortName =
     (if isValidNumber (JStr chainIdOrShortName) then Resolved (to_number e chainIdOrShortName)
      else
        (let key = toLowerCase chainIdOrShortName
         in case map_of CHAIN_SHORT_NAMES key of
              Some i \<Rightarrow> Resolved i
            | None \<Rightarrow> if key \<in> set object_prototype_names then Inherited key else Unresolved))"


section \<open>The schema combinators of zod, as the source uses them\<close>

text \<open>
  A schema parses a value into a validated value or fails. zod collects all issues
  before it throws; the model records only that validation failed.
\<close>

type_synonym schema = "jsval \<Rightarrow> error + jsval"

definition z_string :: schema where
  "z_string v = (case v of JStr s \<Rightarrow> Inr v | _ \<Rightarrow> Inl ValidationError)"

definition z_number :: schema where
  "z_number v = (if isValidNumber v then Inr v else Inl ValidationError)"

definition z_unknown :: schema where
  "z_unknown v = Inr v"

text \<open>\<open>z.string().url()\<close>: a string that \<open>new URL\<close> accepts.\<close>

definition z_string_url :: "engine \<Rightarrow> schema" where
  "z_string_url e v =
     (case v of JStr s \<Rightarrow> if url_parses e s then Inr v else Inl ValidationError
      | _ \<Rightarrow> Inl ValidationError)"

definition z_refine :: "(jsval \<Rightarrow> bool) \<Rightarrow> schema \<Rightarrow> schema" where
  "z_refine check inner v =
     (case inner v of
        Inl err \<Rightarrow> Inl err
      | Inr w \<Rightarrow> if check w then Inr w else Inl ValidationError)"

text \<open>\<open>z.number().nonnegative()\<close>: the check is \<open>input.data < 0\<close>.\<close>

definition is_negative :: "jsnum \<Rightarrow> bool" where
  "is_negative n = (case n of Fin r \<Rightarrow> r < 0 | NegInf \<Rightarrow> True | _ \<Rightarrow> False)"

definition z_number_nonnegative :: schema where
  "z_number_nonnegative v =
     (case v of
        JNum n \<Rightarrow> if n \<noteq> NaN \<and> \<not> is_negative n then Inr v else Inl ValidationError
      | _ \<Rightarrow> Inl ValidationError)"

fun all_valid :: "(error + jsval) list \<Rightarrow> error + jsval list" where
  "all_valid [] = Inr []"
| "all_valid (r # rs) =
     (case r of
        Inl err \<Rightarrow> Inl ValidationError
      | Inr v \<Rightarrow> (case all_valid rs of Inl err \<Rightarrow> Inl err | Inr vs \<Rightarrow> Inr (v # vs)))"

definition z_array :: "schema \<Rightarrow> schema" where
  "z_array element v =
     (case v of
        JArr xs \<Rightarrow> (case all_valid (map element xs) of
                      Inl err \<Rightarrow> Inl err
                    | Inr ys \<Rightarrow> Inr (JArr ys))
      | _ \<Rightarrow> Inl ValidationError)"

text \<open>\<open>z.array(element).max(n)\<close>.\<close>

definition z_array_max :: "nat \<Rightarrow> schema \<Rightarrow> schema" where
  "z_array_max n element v =
     (case v of
        JArr xs \<Rightarrow> if length xs > n then Inl ValidationError else z_array element v
      | _ \<Rightarrow> Inl ValidationError)"

definition z_union :: "schema \<Rightarrow> schema \<Rightarrow> schema" where
  "z_union first second v = (case first v of Inr w \<Rightarrow> Inr w | Inl _ \<Rightarrow> second v)"

definition z_optional :: "schema \<Rightarrow> schema" where
  "z_optional inner v = (if v = JUndefined then Inr JUndefined else inner v)"

definition z_preprocess :: "(jsval \<Rightarrow> jsval) \<Rightarrow> schema \<Rightarrow> schema" where
  "z_preprocess f inner v = inner (f v)"

definition z_transform :: "(jsval \<Rightarrow> jsval) \<Rightarrow> schema \<Rightarrow> schema" where
  "z_transform f inner v = (case inner v of Inl err \<Rightarrow> Inl err | Inr w \<Rightarrow> Inr (f w))"

text \<open>
  zod's \<open>mergeObjectSync\<close>: a failed field fails the object; a parsed field is
  stored unless its key is \<open>__proto__\<close> or its value is \<open>undefined\<close> and the key was not
  in the input.
\<close>

fun mergeObjectSync ::
  "(string \<times> (error + jsval) \<times> bool) list \<Rightarrow> (string \<times> jsval) list \<Rightarrow> error + jsval" where
  "mergeObjectSync [] finalObject = Inr (JObj finalObject)"
| "mergeObjectSync ((key, val, alwaysSet) # pairs) finalObject =
     (case val of
        Inl err \<Rightarrow> Inl ValidationError
      | Inr v \<Rightarrow>
          if key \<noteq> ''__proto__'' \<and> (v \<noteq> JUndefined \<or> alwaysSet)
          then mergeObjectSync pairs (AList.update key v finalObject)
          else mergeObjectSync pairs finalObject)"

text \<open>
  \<open>z.object(shape)\<close>, with \<open>.catchall(c)\<close> when the second argument is \<open>Some c\<close>;
  without a catchall, keys outside the shape are stripped.
\<close>

definition z_object :: "(string \<times> schema) list \<Rightarrow> schema option \<Rightarrow> schema" where
  "z_object shape catchall v =
     (case v of
        JObj props \<Rightarrow>
          (let shapeKeys = map fst shape;
               extraKeys = filter (\<lambda>key. key \<notin> set shapeKeys) (map fst props);
               shapePairs =
                 map (\<lambda>(key, validator). (key, validator (js_get props key), js_has props key)) shape;
               extraPairs =
                 (case catchall of
                    None \<Rightarrow> []
                  | Some c \<Rightarrow> map (\<lambda>key. (key, c (js_get props key), js_has props key)) extraKeys)
           in mergeObjectSync (shapePairs @ extraPairs) [])
      | _ \<Rightarrow> Inl ValidationError)"

section \<open>Token and chain field schemas\<close>

definition token_preprocess :: "jsval \<Rightarrow> jsval" where
  "token_preprocess input =
     (case input of JStr s \<Rightarrow> JArr (map JStr (commaStringToArray s)) | _ \<Rightarrow> input)"

definition TokenConfigSchema :: schema where
  "TokenConfigSchema = z_preprocess token_preprocess (z_array z_string)"

definition chain_preprocess :: "engine \<Rightarrow> jsval \<Rightarrow> jsval" where
  "chain_preprocess e input =
     (case input of
        JArr xs \<Rightarrow> input
      | JStr s \<Rightarrow>
          JArr (map (\<lambda>item. let num = to_number e item
                            in if num = NaN then JStr item else JNum num)
                    (commaStringToArray s))
      | _ \<Rightarrow> input)"

text \<open>
  The \<open>map\<close> step of the transform. The array schema has let only strings and
  numbers through.
\<close>

definition resolve_element :: "engine \<Rightarrow> jsval \<Rightarrow> resolved" where
  "resolve_element e chain =
     (case chain of
        JStr s \<Rightarrow> resolveChainIdOrShortName e s
      | JNum n \<Rightarrow> Resolved n
      | _ \<Rightarrow> Unresolved)"

text \<open>
  The \<open>filter\<close> step:
  \<open>id !== 0 && id !== undefined && SUPPORTED_CHAINS.some(chain => chain.id === id)\<close>.
\<close>

definition is_supported :: "resolved \<Rightarrow> bool" where
  "is_supported r =
     (case r of
        Resolved n \<Rightarrow>
          \<not> strict_eq_num n (Fin 0) \<and> list_ex (\<lambda>c. strict_eq_num (chain_id c) n) SUPPORTED_CHAINS
      | _ \<Rightarrow> False)"

definition resolved_value :: "resolved \<Rightarrow> jsval" where
  "resolved_value r = (case r of Resolved n \<Rightarrow> JNum n | _ \<Rightarrow> JUndefined)"

definition chain_transform :: "engine \<Rightarrow> jsval \<Rightarrow> jsval" where
  "chain_transform e chainList =
     (case chainList of
        JArr xs \<Rightarrow> JArr (map resolved_value (filter is_supported (map (resolve_element e) xs)))
      | _ \<Rightarrow> chainList)"

definition ChainConfigSchema :: "engine \<Rightarrow> schema" where
  "ChainConfigSchema e =
     z_preprocess (chain_preprocess e)
       (z_transform (chain_transform e) (z_array (z_union z_string z_number)))"

section \<open>The preferences schema\<close>

definition preferences_preprocess :: "engine \<Rightarrow> jsval \<Rightarrow> jsval" where
  "preferences_preprocess e input =
     (case input of
        JStr s \<Rightarrow>
          if trim s \<noteq> [] then (case json_parse e s of Some v \<Rightarrow> v | None \<Rightarrow> JObj [])
          else input
      | _ \<Rightarrow> input)"

definition is_https :: "jsval \<Rightarrow> bool" where
  "is_https url = (case url of JStr s \<Rightarrow> startsWith s ''https://'' | _ \<Rightarrow> False)"

definition preferences_shape :: "engine \<Rightarrow> (string \<times> schema) list" where
  "preferences_shape e =
     [(''chainIds'', z_optional (ChainConfigSchema e)),
      (''tokenSymbols'', z_optional TokenConfigSchema),
      (''chains'', z_optional (ChainConfigSchema e)),
      (''tokens'', z_optional TokenConfigSchema),
      (''redirectUrl'', z_optional (z_string_url e)),
      (''currency'', z_optional z_string),
      (''amount'', z_optional z_number_nonnegative),
      (''webhooks'', z_optional (z_array_max 15 (z_refine is_https (z_string_url e)))),
      (''og'', z_optional (z_object [(''baseUrl'', z_optional (z_string_url e))] None))]"

text \<open>\<open>a ?? b\<close>.\<close>

definition nullish :: "jsval \<Rightarrow> jsval \<Rightarrow> jsval" where
  "nullish a b = (if a = JUndefined \<or> a = JNull then b else a)"

text \<open>Object spread \<open>{...target, ...source}\<close>: each property of the source is defined in turn.\<close>

definition spread :: "(string \<times> jsval) list \<Rightarrow> (string \<times> jsval) list \<Rightarrow> (string \<times> jsval) list" where
  "spread target source = foldl (\<lambda>acc (key, v). AList.update key v acc) target source"

definition remove_undefined :: "(string \<times> jsval) list \<Rightarrow> (string \<times> jsval) list" where
  "remove_undefined obj = filter (\<lambda>(key, v). v \<noteq> JUndefined) obj"

definition destructured_keys :: "string list" where
  "destructured_keys =
     [''chains'', ''tokens'', ''chainIds'', ''tokenSymbols'', ''redirectUrl'', ''currency'',
      ''amount'', ''webhooks'', ''og'']"

text \<open>
  The body of the transform, on the properties of the parsed object: the merged
  fields, the rest of the destructuring, the result literal and the removal of the
  properties whose value is \<open>undefined\<close>.
\<close>

definition transform_result :: "(string \<times> jsval) list \<Rightarrow> (string \<times> jsval) list" where
  "transform_result d =
     (let chainIds = nullish (js_get d ''chains'') (nullish (js_get d ''chainIds'') (JArr []));
          tokenSymbols =
            nullish (js_get d ''tokens'') (nullish (js_get d ''tokenSymbols'') (JArr []));
          otherProps = filter (\<lambda>(key, v). key \<notin> set destructured_keys) d;
          result =
            spread
              [(''chainIds'', chainIds),
               (''tokenSymbols'', tokenSymbols),
               (''redirectUrl'', js_get d ''redirectUrl''),
               (''currency'', js_get d ''currency''),
               (''amount'', js_get d ''amount''),
               (''webhooks'', js_get d ''webhooks''),
               (''og'', js_get d ''og'')]
              otherProps
      in remove_undefined result)"

text \<open>The object schema hands the transform an object.\<close>

definition preferences_transform :: "jsval \<Rightarrow> jsval" where
  "preferences_transform data =
     (case data of JObj d \<Rightarrow> JObj (transform_result d) | _ \<Rightarrow> data)"

definition PreferencesSchema :: "engine \<Rightarrow> schema" where
  "PreferencesSchema e =
     z_preprocess (preferences_preprocess e)
       (z_transform preferences_transform (z_object (preferences_shape e) (Some z_unknown)))"

text \<open>\<open>validate\<close> of the specification is \<open>PreferencesSchema.parse\<close>.\<close>

definition validate :: "engine \<Rightarrow> jsval \<Rightarrow> error + jsval" where
  "validate e input = PreferencesSchema e input"


section \<open>The text serializer\<close>

text \<open>\<open>JSON.stringify\<close>: quoting of a string, and the text of a value.\<close>

definition hex_digit :: "nat \<Rightarrow> char" where
  "hex_digit n = ''0123456789abcdef'' ! (n mod 16)"

definition json_escape :: "char \<Rightarrow> string" where
  "json_escape c =
     (if c = CHR 0x22 then [CHR 0x5C, CHR 0x22]
      else if c = CHR 0x5C then [CHR 0x5C, CHR 0x5C]
      else if c = CHR 0x08 then [CHR 0x5C, CHR ''b'']
      else if c = CHR 0x0C then [CHR 0x5C, CHR ''f'']
      else if c = CHR 0x0A then [CHR 0x5C, CHR ''n'']
      else if c = CHR 0x0D then [CHR 0x5C, CHR ''r'']
      else if c = CHR 0x09 then [CHR 0x5C, CHR ''t'']
      else if (of_char c :: nat) < 32
        then [CHR 0x5C, CHR ''u'', CHR ''0'', CHR ''0'',
              hex_digit ((of_char c :: nat) div 16), hex_digit (of_char c)]
      else [c])"

definition json_quote :: "string \<Rightarrow> string" where
  "json_quote s = [CHR 0x22] @ concat (map json_escape s) @ [CHR 0x22]"

text \<open>
  The text of a value inside an array or an object. In an array \<open>undefined\<close> is
  written \<open>null\<close>; in an object a property whose value is \<open>undefined\<close> is left out.
\<close>

fun json_text :: "engine \<Rightarrow> jsval \<Rightarrow> string" where
  "json_text e JUndefined = ''null''"
| "json_text e JNull = ''null''"
| "json_text e (JBool b) = (if b then ''true'' else ''false'')"
| "json_text e (JNum n) = (case n of Fin r \<Rightarrow> number_to_string e n | _ \<Rightarrow> ''null'')"
| "json_text e (JStr s) = json_quote s"
| "json_text e (JArr xs) = ''['' @ join_with '','' (map (json_text e) xs) @ '']''"
| "json_text e (JObj ps) =
     ''{'' @
     join_with '',''
       (concat (map (\<lambda>(key, v). if v = JUndefined then []
                                  else [json_quote key @ '':'' @ json_text e v]) ps)) @
     ''}''"

text \<open>\<open>Boolean(v)\<close>.\<close>

definition truthy :: "jsval \<Rightarrow> bool" where
  "truthy v =
     (case v of
        JUndefined \<Rightarrow> False
      | JNull \<Rightarrow> False
      | JBool b \<Rightarrow> b
      | JNum n \<Rightarrow> n \<noteq> NaN \<and> n \<noteq> Fin 0
      | JStr s \<Rightarrow> s \<noteq> []
      | JArr xs \<Rightarrow> True
      | JObj ps \<Rightarrow> True)"

text \<open>
  \<open>chainIdToShortName(chain)\<close> on an element of \<open>chainIds\<close>; an element that is not a
  number is \<open>===\<close> to no id.
\<close>

definition short_name_value :: "jsval \<Rightarrow> jsval" where
  "short_name_value chain =
     (case chain of
        JNum n \<Rightarrow> (case chainIdToShortName n of Some s \<Rightarrow> JStr s | None \<Rightarrow> JUndefined)
      | _ \<Rightarrow> JUndefined)"

text \<open>
  \<open>preferences.chainIds?.map(...).filter(Boolean)\<close>: \<open>None\<close> is \<open>undefined\<close>; a value
  without a \<open>map\<close> method raises.
\<close>

definition processedChains :: "(string \<times> jsval) list \<Rightarrow> error + jsval list option" where
  "processedChains preferences =
     (case js_get preferences ''chainIds'' of
        JUndefined \<Rightarrow> Inr None
      | JNull \<Rightarrow> Inr None
      | JArr xs \<Rightarrow> Inr (Some (filter truthy (map short_name_value xs)))
      | _ \<Rightarrow> Inl TypeError)"

text \<open>
  \<open>preferences.tokenSymbols ? arrayToCommaString(preferences.tokenSymbols) : undefined\<close>:
  a truthy value without a \<open>join\<close> method raises.
\<close>

definition tokens_entry :: "engine \<Rightarrow> (string \<times> jsval) list \<Rightarrow> error + jsval" where
  "tokens_entry e preferences =
     (let tokenSymbols = js_get preferences ''tokenSymbols''
      in if truthy tokenSymbols
         then (case tokenSymbols of
                 JArr xs \<Rightarrow> Inr (JStr (arrayToCommaString e xs))
               | _ \<Rightarrow> Inl TypeError)
         else Inr JUndefined)"

definition chains_entry :: "engine \<Rightarrow> jsval list option \<Rightarrow> jsval" where
  "chains_entry e processed =
     (case processed of
        None \<Rightarrow> JUndefined
      | Some names \<Rightarrow> if length names > 0 then JStr (arrayToCommaString e names) else JUndefined)"

text \<open>
  The loop \<open>for (const key in preferences)\<close>. Assigning to the key \<open>__proto__\<close> sets
  the prototype and creates no property.
\<close>

definition copy_properties ::
  "(string \<times> jsval) list \<Rightarrow> (string \<times> jsval) list \<Rightarrow> (string \<times> jsval) list" where
  "copy_properties preferences formattedPreferences =
     foldl (\<lambda>acc key.
              if key \<noteq> ''chainIds'' \<and> key \<noteq> ''tokenSymbols'' \<and> key \<noteq> ''__proto__''
              then AList.update key (js_get preferences key) acc else acc)
           formattedPreferences (map fst preferences)"

text \<open>The object that \<open>convertPreferencesToText\<close> hands to \<open>JSON.stringify\<close>.\<close>

definition formattedPreferences ::
  "engine \<Rightarrow> (string \<times> jsval) list \<Rightarrow> error + (string \<times> jsval) list" where
  "formattedPreferences e preferences =
     (case processedChains preferences of
        Inl err \<Rightarrow> Inl err
      | Inr processed \<Rightarrow>
          (case tokens_entry e preferences of
             Inl err \<Rightarrow> Inl err
           | Inr tokens \<Rightarrow>
               Inr (remove_undefined
                      (copy_properties preferences
                         [(''tokens'', tokens), (''chains'', chains_entry e processed)]))))"

definition convertPreferencesToText :: "engine \<Rightarrow> (string \<times> jsval) list \<Rightarrow> error + string" where
  "convertPreferencesToText e preferences =
     (case formattedPreferences e preferences of
        Inl err \<Rightarrow> Inl err
      | Inr obj \<Rightarrow> Inr (json_text e (JObj obj)))"

section \<open>A small engine for evaluating examples\<close>

text \<open>
  The general theorems hold for every engine. The examples are evaluated with this one.
  Each component computes the built-in on a fragment and rejects the rest: \<open>Number\<close> on
  unsigned decimal integers (other strings give \<open>NaN\<close>), number printing on integers,
  the URL test on lower-case \<open>http\<close>, \<open>https\<close> and \<open>ftp\<close> URLs with a plain host and
  path, \<open>JSON.parse\<close> on texts without escape sequences, fractions or exponents. The
  examples use only strings on which the component and the built-in agree.
\<close>

definition is_digit :: "char \<Rightarrow> bool" where
  "is_digit c = (c \<in> set ''0123456789'')"

definition is_lower :: "char \<Rightarrow> bool" where
  "is_lower c = (c \<in> set ''abcdefghijklmnopqrstuvwxyz'')"

definition digit_value :: "char \<Rightarrow> nat" where
  "digit_value c = (of_char c :: nat) - 48"

definition nat_of_digits :: "string \<Rightarrow> nat" where
  "nat_of_digits s = foldl (\<lambda>acc c. 10 * acc + digit_value c) 0 s"

fun digits_of_nat :: "nat \<Rightarrow> string" where
  "digits_of_nat n =
     (if n < 10 then [''0123456789'' ! n]
      else digits_of_nat (n div 10) @ [''0123456789'' ! (n mod 10)])"

definition small_to_number :: "string \<Rightarrow> jsnum" where
  "small_to_number s =
     (if s = [] then Fin 0
      else if list_all is_digit s then Fin (of_nat (nat_of_digits s))
      else NaN)"

definition small_number_to_string :: "jsnum \<Rightarrow> string" where
  "small_number_to_string n =
     (case n of
        Fin r \<Rightarrow> (if r < 0 then ''-'' @ digits_of_nat (nat (- \<lfloor>r\<rfloor>)) else digits_of_nat (nat \<lfloor>r\<rfloor>))
      | NaN \<Rightarrow> ''NaN''
      | PosInf \<Rightarrow> ''Infinity''
      | NegInf \<Rightarrow> ''-Infinity'')"

definition small_url_parses :: "string \<Rightarrow> bool" where
  "small_url_parses s =
     (let scheme = takeWhile (\<lambda>c. c \<noteq> CHR '':'') s;
          rest = drop (length scheme) s;
          host = takeWhile (\<lambda>c. c \<noteq> CHR ''/'') (drop 3 rest);
          path = dropWhile (\<lambda>c. c \<noteq> CHR ''/'') (drop 3 rest)
      in scheme \<in> set [''http'', ''https'', ''ftp''] \<and> startsWith rest ''://'' \<and>
         host \<noteq> [] \<and> is_lower (hd host) \<and> is_lower (last host) \<and>
         list_all (\<lambda>c. is_lower c \<or> c = CHR ''.'') host \<and>
         list_all (\<lambda>c. is_lower c \<or> is_digit c \<or> c \<in> set ''/._-'') path)"

definition skip_ws :: "string \<Rightarrow> string" where
  "skip_ws s = dropWhile (\<lambda>c. c \<in> set [CHR 0x20, CHR 0x09, CHR 0x0A, CHR 0x0D]) s"

fun parse_string_body :: "string \<Rightarrow> (string \<times> string) option" where
  "parse_string_body [] = None"
| "parse_string_body (c # r) =
     (if c = CHR 0x22 then Some ([], r)
      else if c = CHR 0x5C \<or> (of_char c :: nat) < 32 then None
      else (case parse_string_body r of
              None \<Rightarrow> None
            | Some (t, r') \<Rightarrow> Some (c # t, r')))"

definition parse_number :: "string \<Rightarrow> (jsval \<times> string) option" where
  "parse_number s =
     (let negative = (s \<noteq> [] \<and> hd s = CHR ''-'');
          t = (if negative then tl s else s);
          digits = takeWhile is_digit t;
          rest = dropWhile is_digit t
      in if digits = [] \<or> (length digits > 1 \<and> hd digits = CHR ''0'') then None
         else if rest \<noteq> [] \<and> hd rest \<in> set ''.eE'' then None
         else Some (JNum (Fin (if negative then - of_nat (nat_of_digits digits)
                               else of_nat (nat_of_digits digits))), rest))"

text \<open>
  Recursive descent; the first argument bounds the number of nested calls and is
  taken larger than the length of the text.
\<close>

fun parse_value :: "nat \<Rightarrow> string \<Rightarrow> (jsval \<times> string) option"
  and parse_elements :: "nat \<Rightarrow> jsval list \<Rightarrow> string \<Rightarrow> (jsval list \<times> string) option"
  and parse_members ::
    "nat \<Rightarrow> (string \<times> jsval) list \<Rightarrow> string \<Rightarrow> ((string \<times> jsval) list \<times> string) option"
where
  "parse_value 0 s = None"
| "parse_value (Suc n) s =
     (let t = skip_ws s
      in if t = [] then None
         else if hd t = CHR ''{'' then
           (let u = skip_ws (tl t)
            in if u \<noteq> [] \<and> hd u = CHR ''}'' then Some (JObj [], tl u)
               else (case parse_members n [] u of
                       None \<Rightarrow> None
                     | Some (ps, r) \<Rightarrow> Some (JObj ps, r)))
         else if hd t = CHR ''['' then
           (let u = skip_ws (tl t)
            in if u \<noteq> [] \<and> hd u = CHR '']'' then Some (JArr [], tl u)
               else (case parse_elements n [] u of
                       None \<Rightarrow> None
                     | Some (xs, r) \<Rightarrow> Some (JArr xs, r)))
         else if hd t = CHR 0x22 then
           (case parse_string_body (tl t) of
              None \<Rightarrow> None
            | Some (str, r) \<Rightarrow> Some (JStr str, r))
         else if startsWith t ''true'' then Some (JBool True, drop 4 t)
         else if startsWith t ''false'' then Some (JBool False, drop 5 t)
         else if startsWith t ''null'' then Some (JNull, drop 4 t)
         else parse_number t)"
| "parse_elements 0 acc s = None"
| "parse_elements (Suc n) acc s =
     (case parse_value n s of
        None \<Rightarrow> None
      | Some (v, r) \<Rightarrow>
          (let u = skip_ws r
           in if u = [] then None
              else if hd u = CHR '','' then parse_elements n (acc @ [v]) (tl u)
              else if hd u = CHR '']'' then Some (acc @ [v], tl u)
              else None))"
| "parse_members 0 acc s = None"
| "parse_members (Suc n) acc s =
     (let t = skip_ws s
      in if t = [] \<or> hd t \<noteq> CHR 0x22 then None
         else (case parse_string_body (tl t) of
                 None \<Rightarrow> None
               | Some (key, r) \<Rightarrow>
                   (let u = skip_ws r
                    in if u = [] \<or> hd u \<noteq> CHR '':'' then None
                       else (case parse_value n (tl u) of
                               None \<Rightarrow> None
                             | Some (v, r2) \<Rightarrow>
                                 (let w = skip_ws r2
                                  in if w = [] then None
                                     else if hd w = CHR '','' then
                                       parse_members n (AList.update key v acc) (tl w)
                                     else if hd w = CHR ''}'' then
                                       Some (AList.update key v acc, tl w)
                                     else None)))))"

definition small_json_parse :: "string \<Rightarrow> jsval option" where
  "small_json_parse s =
     (case parse_value (Suc (length s)) s of
        None \<Rightarrow> None
      | Some (v, r) \<Rightarrow> if skip_ws r = [] then Some v else None)"

definition small_engine :: engine where
  "small_engine =
     \<lparr> json_parse = small_json_parse,
       to_number = small_to_number,
       url_parses = small_url_parses,
       number_to_string = small_number_to_string \<rparr>"


section \<open>Predicates used to state the properties\<close>

text \<open>An element the array schema of the chain field accepts: a string, or a number that is not \<open>NaN\<close>.\<close>

definition string_or_number :: "jsval \<Rightarrow> bool" where
  "string_or_number v = (case v of JStr s \<Rightarrow> True | JNum n \<Rightarrow> n \<noteq> NaN | _ \<Rightarrow> False)"

text \<open>
  The loop of \<open>mergeObjectSync\<close> as a fold, and the list of pairs \<open>z.object\<close> hands
  to it; both are used to reason about the parsed object.
\<close>

definition merge_step ::
  "(string \<times> jsval) list \<Rightarrow> string \<times> (error + jsval) \<times> bool \<Rightarrow> (string \<times> jsval) list" where
  "merge_step acc pair =
     (case pair of
        (key, val, alwaysSet) \<Rightarrow>
          (case val of
             Inl err \<Rightarrow> acc
           | Inr v \<Rightarrow> if key \<noteq> ''__proto__'' \<and> (v \<noteq> JUndefined \<or> alwaysSet)
                      then AList.update key v acc else acc))"

definition object_pairs ::
  "(string \<times> schema) list \<Rightarrow> schema option \<Rightarrow> (string \<times> jsval) list \<Rightarrow>
   (string \<times> (error + jsval) \<times> bool) list" where
  "object_pairs shape catchall props =
     map (\<lambda>(key, validator). (key, validator (js_get props key), js_has props key)) shape @
     (case catchall of
        None \<Rightarrow> []
      | Some c \<Rightarrow> map (\<lambda>key. (key, c (js_get props key), js_has props key))
                   (filter (\<lambda>key. key \<notin> set (map fst shape)) (map fst props)))"

text \<open>
  The result of parsing one field of the input, whether every field of the preferences
  shape parses, and the object the preferences schema hands to its transform.
\<close>

definition field_result ::
  "(string \<times> schema) list \<Rightarrow> schema option \<Rightarrow> (string \<times> jsval) list \<Rightarrow> string \<Rightarrow> error + jsval" where
  "field_result shape catchall props key =
     (case map_of shape key of
        Some validator \<Rightarrow> validator (js_get props key)
      | None \<Rightarrow> (case catchall of Some c \<Rightarrow> c (js_get props key) | None \<Rightarrow> Inr JUndefined))"

definition fields_ok :: "engine \<Rightarrow> (string \<times> jsval) list \<Rightarrow> bool" where
  "fields_ok e props =
     list_all (\<lambda>(key, validator). \<not> isl (validator (js_get props key))) (preferences_shape e)"

definition parsed_data :: "engine \<Rightarrow> (string \<times> jsval) list \<Rightarrow> (string \<times> jsval) list" where
  "parsed_data e props =
     foldl merge_step [] (object_pairs (preferences_shape e) (Some z_unknown) props)"

text \<open>
  The failure conditions of \<open>validate\<close> in the words of the specification. A field has
  the wrong type when it is present (not \<open>undefined\<close>) and does not have its expected
  shape; the chain and token fields are judged after their preprocessing, and an input
  that is not an object after preprocessing counts as a type mismatch.
\<close>

definition is_string :: "jsval \<Rightarrow> bool" where
  "is_string v = (case v of JStr s \<Rightarrow> True | _ \<Rightarrow> False)"

definition is_array_of :: "(jsval \<Rightarrow> bool) \<Rightarrow> jsval \<Rightarrow> bool" where
  "is_array_of element v = (case v of JArr xs \<Rightarrow> list_all element xs | _ \<Rightarrow> False)"

definition wrong_type :: "(jsval \<Rightarrow> bool) \<Rightarrow> jsval \<Rightarrow> bool" where
  "wrong_type shape v = (v \<noteq> JUndefined \<and> \<not> shape v)"

definition chain_field_shape :: "engine \<Rightarrow> jsval \<Rightarrow> bool" where
  "chain_field_shape e v = is_array_of string_or_number (chain_preprocess e v)"

definition token_field_shape :: "jsval \<Rightarrow> bool" where
  "token_field_shape v = is_array_of is_string (token_preprocess v)"

definition og_field_shape :: "jsval \<Rightarrow> bool" where
  "og_field_shape v =
     (case v of
        JObj og \<Rightarrow> js_get og ''baseUrl'' = JUndefined \<or> is_string (js_get og ''baseUrl'')
      | _ \<Rightarrow> False)"

definition field_type_mismatch :: "engine \<Rightarrow> (string \<times> jsval) list \<Rightarrow> bool" where
  "field_type_mismatch e props =
     (wrong_type (chain_field_shape e) (js_get props ''chainIds'') \<or>
      wrong_type token_field_shape (js_get props ''tokenSymbols'') \<or>
      wrong_type (chain_field_shape e) (js_get props ''chains'') \<or>
      wrong_type token_field_shape (js_get props ''tokens'') \<or>
      wrong_type is_string (js_get props ''redirectUrl'') \<or>
      wrong_type is_string (js_get props ''currency'') \<or>
      wrong_type isValidNumber (js_get props ''amount'') \<or>
      wrong_type (is_array_of is_string) (js_get props ''webhooks'') \<or>
      wrong_type og_field_shape (js_get props ''og''))"

definition invalid_url :: "engine \<Rightarrow> jsval \<Rightarrow> bool" where
  "invalid_url e v = (case v of JStr s \<Rightarrow> \<not> url_parses e s | _ \<Rightarrow> False)"

definition not_https_url :: "engine \<Rightarrow> jsval \<Rightarrow> bool" where
  "not_https_url e v =
     (case v of JStr s \<Rightarrow> \<not> (url_parses e s \<and> startsWith s ''https://'') | _ \<Rightarrow> False)"

definition webhook_not_https :: "engine \<Rightarrow> jsval \<Rightarrow> bool" where
  "webhook_not_https e v = (case v of JArr xs \<Rightarrow> list_ex (not_https_url e) xs | _ \<Rightarrow> False)"

definition too_many_webhooks :: "jsval \<Rightarrow> bool" where
  "too_many_webhooks v = (case v of JArr xs \<Rightarrow> length xs > 15 | _ \<Rightarrow> False)"

definition negative_amount :: "jsval \<Rightarrow> bool" where
  "negative_amount v = (case v of JNum n \<Rightarrow> is_negative n | _ \<Rightarrow> False)"

text \<open>The conditions the claim lists, on the preprocessed input.\<close>

definition claimed_failure_conditions :: "engine \<Rightarrow> jsval \<Rightarrow> bool" where
  "claimed_failure_conditions e v =
     (case v of
        JObj props \<Rightarrow>
          webhook_not_https e (js_get props ''webhooks'') \<or>
          too_many_webhooks (js_get props ''webhooks'') \<or>
          invalid_url e (js_get props ''redirectUrl'') \<or>
          negative_amount (js_get props ''amount'') \<or>
          field_type_mismatch e props
      | _ \<Rightarrow> True)"

text \<open>The condition the claim leaves out: \<open>og.baseUrl\<close> is a string that is not a URL.\<close>

definition invalid_og_baseUrl :: "engine \<Rightarrow> jsval \<Rightarrow> bool" where
  "invalid_og_baseUrl e v =
     (case v of
        JObj props \<Rightarrow>
          (case js_get props ''og'' of
             JObj og \<Rightarrow> invalid_url e (js_get og ''baseUrl'')
           | _ \<Rightarrow> False)
      | _ \<Rightarrow> False)"

definition failure_conditions :: "engine \<Rightarrow> jsval \<Rightarrow> bool" where
  "failure_conditions e v = (claimed_failure_conditions e v \<or> invalid_og_baseUrl e v)"

text \<open>The body of the copy loop of the serializer, used to reason about the loop.\<close>

definition copy_step :: "(string \<times> jsval) list \<Rightarrow> (string \<times> jsval) list \<Rightarrow> string \<Rightarrow> (string \<times> jsval) list" where
  "copy_step preferences acc key =
     (if key \<noteq> ''chainIds'' \<and> key \<noteq> ''tokenSymbols'' \<and> key \<noteq> ''__proto__''
      then AList.update key (js_get preferences key) acc else acc)"

section \<open>Chain registry: properties\<close>

lemmas registry_defs =
  CHAIN_SHORT_NAMES_def SUPPORTED_CHAINS_def mainnet_def polygon_def arbitrum_def
  optimism_def gnosis_def base_def

lemma toLowerCase_ETH: "toLowerCase ''ETH'' = ''eth''"
  by code_simp

lemma toLowerCase_eth: "toLowerCase ''eth'' = ''eth''"
  by code_simp

lemma toLowerCase_1: "toLowerCase ''1'' = ''1''"
  by code_simp

lemma chainIdToShortName_optimism: "chainIdToShortName (Fin 10) = Some ''oeth''"
  by (simp add: chainIdToShortName_def registry_defs strict_eq_num_def)

text \<open>
  C7. \<open>chainIdToShortName\<close> returns the first short name, in the order of declaration
  of the table, whose id equals the given id, and nothing when no entry has that id.
  \<open>oeth\<close> and \<open>op\<close> both map to the id of optimism; \<open>oeth\<close> is declared first and is the
  one returned.
\<close>

theorem chainIdToShortName_first_match:
  "(chainIdToShortName chainId = Some name \<longleftrightarrow>
      (\<exists>i < length CHAIN_SHORT_NAMES.
          fst (CHAIN_SHORT_NAMES ! i) = name \<and>
          strict_eq_num (snd (CHAIN_SHORT_NAMES ! i)) chainId \<and>
          (\<forall>j < i. \<not> strict_eq_num (snd (CHAIN_SHORT_NAMES ! j)) chainId))) \<and>
   (chainIdToShortName chainId = None \<longleftrightarrow>
      (\<forall>entry \<in> set CHAIN_SHORT_NAMES. \<not> strict_eq_num (snd entry) chainId)) \<and>
   map_of CHAIN_SHORT_NAMES ''oeth'' = Some (chain_id optimism) \<and>
   map_of CHAIN_SHORT_NAMES ''op'' = Some (chain_id optimism) \<and>
   chainIdToShortName (chain_id optimism) = Some ''oeth''"
proof -
  have some: "chainIdToShortName chainId = Some name \<longleftrightarrow>
      (\<exists>i < length CHAIN_SHORT_NAMES.
          fst (CHAIN_SHORT_NAMES ! i) = name \<and>
          strict_eq_num (snd (CHAIN_SHORT_NAMES ! i)) chainId \<and>
          (\<forall>j < i. \<not> strict_eq_num (snd (CHAIN_SHORT_NAMES ! j)) chainId))"
  proof -
    let ?P = "\<lambda>entry. strict_eq_num (snd entry) chainId"
    have "chainIdToShortName chainId = Some name \<longleftrightarrow>
        (\<exists>entry. find ?P CHAIN_SHORT_NAMES = Some entry \<and> fst entry = name)"
      by (auto simp: chainIdToShortName_def case_prod_unfold)
    also have "\<dots> \<longleftrightarrow>
        (\<exists>i < length CHAIN_SHORT_NAMES.
            fst (CHAIN_SHORT_NAMES ! i) = name \<and> ?P (CHAIN_SHORT_NAMES ! i) \<and>
            (\<forall>j < i. \<not> ?P (CHAIN_SHORT_NAMES ! j)))"
      unfolding find_Some_iff by blast
    finally show ?thesis .
  qed
  have none: "chainIdToShortName chainId = None \<longleftrightarrow>
      (\<forall>entry \<in> set CHAIN_SHORT_NAMES. \<not> strict_eq_num (snd entry) chainId)"
    unfolding chainIdToShortName_def
    by (auto simp: find_None_iff case_prod_unfold)
  have optimism_names:
    "map_of CHAIN_SHORT_NAMES ''oeth'' = Some (chain_id optimism) \<and>
     map_of CHAIN_SHORT_NAMES ''op'' = Some (chain_id optimism) \<and>
     chainIdToShortName (chain_id optimism) = Some ''oeth''"
    by (simp add: chainIdToShortName_def registry_defs strict_eq_num_def)
  from some none optimism_names show ?thesis by blast
qed

theorem chainIdToShortName_first_match_witness:
  "chainIdToShortName (Fin 10) = Some ''oeth'' \<and>
   (\<exists>i < length CHAIN_SHORT_NAMES.
       fst (CHAIN_SHORT_NAMES ! i) = ''oeth'' \<and>
       strict_eq_num (snd (CHAIN_SHORT_NAMES ! i)) (Fin 10) \<and>
       (\<forall>j < i. \<not> strict_eq_num (snd (CHAIN_SHORT_NAMES ! j)) (Fin 10))) \<and>
   chainIdToShortName (Fin 5) = None"
proof -
  have found: "chainIdToShortName (Fin 10) = Some ''oeth''"
    by (rule chainIdToShortName_optimism)
  have absent: "chainIdToShortName (Fin 5) = None"
    by (simp add: chainIdToShortName_def registry_defs strict_eq_num_def)
  from found absent chainIdToShortName_first_match [of "Fin 10" "''oeth''"] show ?thesis
    by blast
qed

text \<open>
  C2. The source tests \<open>isValidNumber\<close> on the string itself, and \<open>z.number()\<close> accepts
  no string: the numeric branch is never taken. A string is resolved through the table
  only, so \<open>"1"\<close> resolves to \<open>undefined\<close>, where the claim and the comment above the
  function give 1; \<open>"ETH"\<close> and \<open>"eth"\<close> resolve to 1 as claimed.
\<close>

theorem resolveChainIdOrShortName_numeric_string:
  "resolveChainIdOrShortName e s =
     (case map_of CHAIN_SHORT_NAMES (toLowerCase s) of
        Some i \<Rightarrow> Resolved i
      | None \<Rightarrow> if toLowerCase s \<in> set object_prototype_names
                then Inherited (toLowerCase s) else Unresolved) \<and>
   resolveChainIdOrShortName e ''1'' = Unresolved \<and>
   resolveChainIdOrShortName e ''ETH'' = Resolved (Fin 1) \<and>
   resolveChainIdOrShortName e ''eth'' = Resolved (Fin 1)"
  by (simp add: resolveChainIdOrShortName_def isValidNumber_def Let_def
      toLowerCase_ETH toLowerCase_eth toLowerCase_1 registry_defs object_prototype_names_def)

section \<open>Chain field schema: properties\<close>

lemma toLowerCase_zzz: "toLowerCase ''zzz'' = ''zzz''"
  by code_simp

lemma small_engine_simps:
  "json_parse small_engine = small_json_parse"
  "to_number small_engine = small_to_number"
  "url_parses small_engine = small_url_parses"
  "number_to_string small_engine = small_number_to_string"
  by (simp_all add: small_engine_def)

lemma all_valid_map_test:
  assumes "\<And>x. element x = (if P x then Inr x else Inl ValidationError)"
  shows "all_valid (map element xs) = (if list_all P xs then Inr xs else Inl ValidationError)"
  by (induction xs) (simp_all add: assms)

lemma z_union_string_number:
  "z_union z_string z_number x = (if string_or_number x then Inr x else Inl ValidationError)"
  by (cases x) (simp_all add: z_union_def z_string_def z_number_def isValidNumber_def
      string_or_number_def)

lemma z_array_string_or_number:
  "z_array (z_union z_string z_number) v =
     (case v of
        JArr xs \<Rightarrow> if list_all string_or_number xs then Inr v else Inl ValidationError
      | _ \<Rightarrow> Inl ValidationError)"
  by (cases v) (simp_all add: z_array_def all_valid_map_test [OF z_union_string_number])

lemma ChainConfigSchema_eq:
  "ChainConfigSchema e input =
     (case chain_preprocess e input of
        JArr xs \<Rightarrow> if list_all string_or_number xs
                   then Inr (JArr (map resolved_value (filter is_supported (map (resolve_element e) xs))))
                   else Inl ValidationError
      | _ \<Rightarrow> Inl ValidationError)"
  by (cases "chain_preprocess e input")
     (simp_all add: ChainConfigSchema_def z_preprocess_def z_transform_def
        z_array_string_or_number chain_transform_def)

lemma is_supported_iff:
  "is_supported r \<longleftrightarrow>
     (\<exists>n. r = Resolved n \<and> n \<noteq> Fin 0 \<and> n \<in> chain_id ` set SUPPORTED_CHAINS)"
  by (cases r) (auto simp: is_supported_def strict_eq_num_def list_ex_iff registry_defs)

lemma supported_values:
  "\<exists>ids. map resolved_value (filter is_supported rs) = map JNum ids \<and>
         map Resolved ids = filter is_supported rs"
proof (induction rs)
  case Nil
  show ?case by simp
next
  case (Cons r rs)
  then obtain ids where ids: "map resolved_value (filter is_supported rs) = map JNum ids"
    "map Resolved ids = filter is_supported rs" by blast
  show ?case
  proof (cases "is_supported r")
    case False
    with ids show ?thesis by auto
  next
    case True
    then obtain n where "r = Resolved n" by (auto simp: is_supported_iff)
    with True ids have "map resolved_value (filter is_supported (r # rs)) = map JNum (n # ids) \<and>
         map Resolved (n # ids) = filter is_supported (r # rs)"
      by (simp add: resolved_value_def)
    then show ?thesis by blast
  qed
qed

lemma toLowerCase_nochain: "toLowerCase ''nochain'' = ''nochain''"
  by code_simp

text \<open>
  C5. When the chain schema accepts a field, the result is a list of numbers, each the id
  of a supported chain and none of them zero. It is the list of resolved elements with the
  unresolved ones, zero and the ids outside the registry removed, in the same order and
  with the same repetitions. Dropping raises no error: the schema accepts exactly the
  fields that preprocess to an array of strings and numbers. The id 999999 is dropped.
\<close>

theorem ChainConfigSchema_supported_only:
  "(ChainConfigSchema e input = Inr out \<longrightarrow>
      (\<exists>elements ids.
          chain_preprocess e input = JArr elements \<and> out = JArr (map JNum ids) \<and>
          map Resolved ids =
            filter (\<lambda>r. \<exists>n. r = Resolved n \<and> n \<noteq> Fin 0 \<and> n \<in> chain_id ` set SUPPORTED_CHAINS)
              (map (resolve_element e) elements) \<and>
          (\<forall>n \<in> set ids. n \<noteq> Fin 0 \<and> n \<in> chain_id ` set SUPPORTED_CHAINS))) \<and>
   ((\<exists>accepted. ChainConfigSchema e input = Inr accepted) \<longleftrightarrow>
      (\<exists>elements. chain_preprocess e input = JArr elements \<and>
                  list_all string_or_number elements)) \<and>
   ChainConfigSchema e
       (JArr [JNum (Fin 999999), JStr ''nochain'', JNum (Fin 0), JNum (Fin 10), JNum (Fin 1),
              JNum (Fin 10)]) =
     Inr (JArr [JNum (Fin 10), JNum (Fin 1), JNum (Fin 10)])"
proof (intro conjI impI)
  assume ok: "ChainConfigSchema e input = Inr out"
  then obtain elements where el: "chain_preprocess e input = JArr elements"
    and out: "out = JArr (map resolved_value (filter is_supported (map (resolve_element e) elements)))"
    by (auto simp: ChainConfigSchema_eq split: jsval.splits if_splits)
  obtain ids where ids:
    "map resolved_value (filter is_supported (map (resolve_element e) elements)) = map JNum ids"
    "map Resolved ids = filter is_supported (map (resolve_element e) elements)"
    using supported_values by blast
  have same: "is_supported = (\<lambda>r. \<exists>n. r = Resolved n \<and> n \<noteq> Fin 0 \<and> n \<in> chain_id ` set SUPPORTED_CHAINS)"
    by (rule ext) (rule is_supported_iff)
  have members: "\<forall>n \<in> set ids. n \<noteq> Fin 0 \<and> n \<in> chain_id ` set SUPPORTED_CHAINS"
  proof
    fix n assume "n \<in> set ids"
    then have "Resolved n \<in> set (map Resolved ids)" by simp
    then have "is_supported (Resolved n)" unfolding ids(2) by simp
    then show "n \<noteq> Fin 0 \<and> n \<in> chain_id ` set SUPPORTED_CHAINS"
      by (simp add: is_supported_iff)
  qed
  from el out ids members show "\<exists>elements ids.
          chain_preprocess e input = JArr elements \<and> out = JArr (map JNum ids) \<and>
          map Resolved ids =
            filter (\<lambda>r. \<exists>n. r = Resolved n \<and> n \<noteq> Fin 0 \<and> n \<in> chain_id ` set SUPPORTED_CHAINS)
              (map (resolve_element e) elements) \<and>
          (\<forall>n \<in> set ids. n \<noteq> Fin 0 \<and> n \<in> chain_id ` set SUPPORTED_CHAINS)"
    unfolding same [symmetric] by blast
next
  show "(\<exists>accepted. ChainConfigSchema e input = Inr accepted) \<longleftrightarrow>
      (\<exists>elements. chain_preprocess e input = JArr elements \<and>
                  list_all string_or_number elements)"
    by (auto simp: ChainConfigSchema_eq split: jsval.splits if_splits)
next
  show "ChainConfigSchema e
       (JArr [JNum (Fin 999999), JStr ''nochain'', JNum (Fin 0), JNum (Fin 10), JNum (Fin 1),
              JNum (Fin 10)]) =
     Inr (JArr [JNum (Fin 10), JNum (Fin 1), JNum (Fin 10)])"
    by (simp add: ChainConfigSchema_eq chain_preprocess_def string_or_number_def
        resolve_element_def resolveChainIdOrShortName_def isValidNumber_def Let_def
        toLowerCase_nochain is_supported_def strict_eq_num_def registry_defs
        object_prototype_names_def resolved_value_def)
qed

lemma chain_preprocess_example:
  "chain_preprocess small_engine (JStr ''10, zzz,999999,eth,0,10'') =
     JArr [JNum (Fin 10), JStr ''zzz'', JNum (Fin 999999), JStr ''eth'', JNum (Fin 0), JNum (Fin 10)]"
  by (simp add: chain_preprocess_def small_engine_simps commaStringToArray_def trim_def
      is_space_def small_to_number_def is_digit_def nat_of_digits_def digit_value_def)

lemma chain_example:
  "ChainConfigSchema small_engine (JStr ''10, zzz,999999,eth,0,10'') =
     Inr (JArr [JNum (Fin 10), JNum (Fin 1), JNum (Fin 10)])"
  by (simp add: ChainConfigSchema_def z_preprocess_def z_transform_def z_array_def z_union_def
        z_string_def z_number_def chain_transform_def chain_preprocess_example
        resolve_element_def resolveChainIdOrShortName_def isValidNumber_def Let_def
        toLowerCase_zzz toLowerCase_eth is_supported_def strict_eq_num_def registry_defs
        object_prototype_names_def resolved_value_def)

theorem ChainConfigSchema_supported_only_witness:
  "ChainConfigSchema small_engine (JStr ''10, zzz,999999,eth,0,10'') =
     Inr (JArr [JNum (Fin 10), JNum (Fin 1), JNum (Fin 10)]) \<and>
   (\<exists>elements ids.
       chain_preprocess small_engine (JStr ''10, zzz,999999,eth,0,10'') = JArr elements \<and>
       JArr [JNum (Fin 10), JNum (Fin 1), JNum (Fin 10)] = JArr (map JNum ids) \<and>
       map Resolved ids =
         filter (\<lambda>r. \<exists>n. r = Resolved n \<and> n \<noteq> Fin 0 \<and> n \<in> chain_id ` set SUPPORTED_CHAINS)
           (map (resolve_element small_engine) elements) \<and>
       (\<forall>n \<in> set ids. n \<noteq> Fin 0 \<and> n \<in> chain_id ` set SUPPORTED_CHAINS))"
  using ChainConfigSchema_supported_only
    [of small_engine "JStr ''10, zzz,999999,eth,0,10''"
        "JArr [JNum (Fin 10), JNum (Fin 1), JNum (Fin 10)]"]
    chain_example
  by blast

section \<open>Objects: parsing, spreading, removing undefined\<close>

lemma merge_step_Inr:
  "merge_step acc (key, Inr v, alwaysSet) =
     (if key \<noteq> ''__proto__'' \<and> (v \<noteq> JUndefined \<or> alwaysSet)
      then AList.update key v acc else acc)"
  by (simp add: merge_step_def)

lemma merge_step_Inl: "merge_step acc (key, Inl err, alwaysSet) = acc"
  by (simp add: merge_step_def)

lemma mergeObjectSync_eq:
  "mergeObjectSync pairs final =
     (if list_all (\<lambda>(key, val, alwaysSet). \<not> isl val) pairs
      then Inr (JObj (foldl merge_step final pairs)) else Inl ValidationError)"
proof (induction pairs arbitrary: final)
  case Nil
  show ?case by simp
next
  case (Cons pair pairs)
  obtain key val alwaysSet where pair: "pair = (key, val, alwaysSet)"
    by (cases pair) auto
  show ?case
    by (cases val) (simp_all add: pair Cons.IH merge_step_Inr merge_step_Inl)
qed

lemma z_object_eq:
  "z_object shape catchall v =
     (case v of
        JObj props \<Rightarrow>
          if list_all (\<lambda>(key, val, alwaysSet). \<not> isl val) (object_pairs shape catchall props)
          then Inr (JObj (foldl merge_step [] (object_pairs shape catchall props)))
          else Inl ValidationError
      | _ \<Rightarrow> Inl ValidationError)"
  by (cases v) (simp_all add: z_object_def mergeObjectSync_eq object_pairs_def Let_def)

lemma distinct_merge_step:
  "distinct (map fst acc) \<Longrightarrow> distinct (map fst (merge_step acc pair))"
  by (cases pair) (auto simp: merge_step_def distinct_update split: sum.splits)

lemma distinct_foldl_merge_step:
  "distinct (map fst acc) \<Longrightarrow> distinct (map fst (foldl merge_step acc pairs))"
  by (induction pairs arbitrary: acc) (simp_all add: distinct_merge_step)

lemma map_of_foldl_merge_step:
  "map_of (foldl merge_step acc (map (\<lambda>key. (key, g key, h key)) keys)) k =
     (if k \<in> set keys \<and> k \<noteq> ''__proto__'' \<and> (\<exists>v. g k = Inr v \<and> (v \<noteq> JUndefined \<or> h k))
      then Some (projr (g k)) else map_of acc k)"
proof (induction keys arbitrary: acc)
  case Nil
  show ?case by simp
next
  case (Cons key keys)
  have step: "map_of (merge_step acc (key, g key, h key)) k =
      (if k = key \<and> k \<noteq> ''__proto__'' \<and> (\<exists>v. g k = Inr v \<and> (v \<noteq> JUndefined \<or> h k))
       then Some (projr (g k)) else map_of acc k)"
    by (cases "g key") (auto simp: merge_step_Inr merge_step_Inl update_conv')
  have "map_of (foldl merge_step acc (map (\<lambda>key. (key, g key, h key)) (key # keys))) k =
      (if k \<in> set keys \<and> k \<noteq> ''__proto__'' \<and> (\<exists>v. g k = Inr v \<and> (v \<noteq> JUndefined \<or> h k))
       then Some (projr (g k)) else map_of (merge_step acc (key, g key, h key)) k)"
    using Cons.IH [of "merge_step acc (key, g key, h key)"] by simp
  also have "\<dots> =
      (if k \<in> set (key # keys) \<and> k \<noteq> ''__proto__'' \<and>
          (\<exists>v. g k = Inr v \<and> (v \<noteq> JUndefined \<or> h k))
       then Some (projr (g k)) else map_of acc k)"
    unfolding step by auto
  finally show ?case .
qed

lemma map_of_spread:
  "distinct (map fst source) \<Longrightarrow>
   map_of (spread target source) k =
     (case map_of source k of Some v \<Rightarrow> Some v | None \<Rightarrow> map_of target k)"
proof (induction source arbitrary: target)
  case Nil
  show ?case by (simp add: spread_def)
next
  case (Cons p source)
  obtain key v where p: "p = (key, v)" by (cases p) auto
  have "spread target (p # source) = spread (AList.update key v target) source"
    by (simp add: spread_def p)
  moreover have "map_of (spread (AList.update key v target) source) k =
     (case map_of source k of Some w \<Rightarrow> Some w | None \<Rightarrow> map_of (AList.update key v target) k)"
    using Cons by simp
  moreover have "key \<notin> fst ` set source" using Cons.prems by (simp add: p)
  then have "map_of source key = None" by (simp add: map_of_eq_None_iff)
  ultimately show ?case
    by (auto simp: p update_conv' split: option.splits)
qed

lemma distinct_spread:
  "distinct (map fst target) \<Longrightarrow> distinct (map fst (spread target source))"
  unfolding spread_def
  by (induction source arbitrary: target) (auto simp: distinct_update)

lemma map_of_remove_undefined:
  "distinct (map fst obj) \<Longrightarrow>
   map_of (remove_undefined obj) k =
     (case map_of obj k of Some v \<Rightarrow> if v = JUndefined then None else Some v | None \<Rightarrow> None)"
proof (induction obj)
  case Nil
  show ?case by (simp add: remove_undefined_def)
next
  case (Cons p obj)
  obtain key v where p: "p = (key, v)" by (cases p) auto
  from Cons.prems have "key \<notin> fst ` set obj" by (simp add: p)
  then have none: "map_of obj key = None" by (simp add: map_of_eq_None_iff)
  from Cons have ih: "map_of (remove_undefined obj) k =
     (case map_of obj k of Some v \<Rightarrow> if v = JUndefined then None else Some v | None \<Rightarrow> None)"
    by simp
  show ?case
    using ih none by (auto simp: remove_undefined_def p split: option.splits)
qed

lemma js_get_remove_undefined:
  "distinct (map fst obj) \<Longrightarrow> js_get (remove_undefined obj) k = js_get obj k"
  by (simp add: js_get_def map_of_remove_undefined split: option.splits)

lemma map_of_filter_keys:
  "map_of (filter (\<lambda>(key, v). P key) d) k = (if P k then map_of d k else None)"
  by (induction d) auto

lemma distinct_filter_keys:
  "distinct (map fst d) \<Longrightarrow> distinct (map fst (filter P d))"
  by (simp add: distinct_map_filter)

section \<open>The preferences schema: what it accepts and returns\<close>

lemma object_pairs_fields:
  assumes "distinct (map fst shape)"
  shows "object_pairs shape catchall props =
     map (\<lambda>key. (key, field_result shape catchall props key, js_has props key))
       (map fst shape @
        (case catchall of
           None \<Rightarrow> []
         | Some c \<Rightarrow> filter (\<lambda>key. key \<notin> set (map fst shape)) (map fst props)))"
proof -
  have shape_part:
    "map (\<lambda>(key, validator). (key, validator (js_get props key), js_has props key)) shape =
     map (\<lambda>key. (key, field_result shape catchall props key, js_has props key)) (map fst shape)"
    using assms by (auto simp: field_result_def)
  have extra_part: "\<And>c keys. \<forall>key \<in> set keys. key \<notin> set (map fst shape) \<Longrightarrow> catchall = Some c \<Longrightarrow>
     map (\<lambda>key. (key, c (js_get props key), js_has props key)) keys =
     map (\<lambda>key. (key, field_result shape catchall props key, js_has props key)) keys"
  proof -
    fix c keys
    assume out: "\<forall>key \<in> set keys. key \<notin> set (map fst shape)" and c: "catchall = Some c"
    have "\<And>key. key \<in> set keys \<Longrightarrow> map_of shape key = None"
      using out by (simp add: map_of_eq_None_iff)
    then show "map (\<lambda>key. (key, c (js_get props key), js_has props key)) keys =
       map (\<lambda>key. (key, field_result shape catchall props key, js_has props key)) keys"
      by (simp add: field_result_def c)
  qed
  show ?thesis
  proof (cases catchall)
    case None
    then show ?thesis by (simp add: object_pairs_def shape_part)
  next
    case (Some c)
    then show ?thesis
      unfolding object_pairs_def shape_part
      using extra_part [of "filter (\<lambda>key. key \<notin> set (map fst shape)) (map fst props)" c]
      by simp
  qed
qed

lemma map_of_parsed:
  assumes "distinct (map fst shape)"
  shows "map_of (foldl merge_step [] (object_pairs shape catchall props)) k =
     (if (k \<in> fst ` set shape \<or> (catchall \<noteq> None \<and> k \<in> fst ` set props)) \<and>
         k \<noteq> ''__proto__'' \<and>
         (\<exists>v. field_result shape catchall props k = Inr v \<and> (v \<noteq> JUndefined \<or> js_has props k))
      then Some (projr (field_result shape catchall props k)) else None)"
  unfolding object_pairs_fields [OF assms] map_of_foldl_merge_step
  by (cases catchall) auto

lemma js_get_parsed_shape:
  assumes "distinct (map fst shape)" and "''__proto__'' \<notin> fst ` set shape"
    and "(k, validator) \<in> set shape" and "validator (js_get props k) = Inr v"
  shows "js_get (foldl merge_step [] (object_pairs shape catchall props)) k = v"
proof -
  have "map_of shape k = Some validator"
    using assms(1,3) by (rule map_of_is_SomeI)
  then have field: "field_result shape catchall props k = Inr v"
    using assms(4) by (simp add: field_result_def)
  have "k \<in> fst ` set shape" using assms(3) by force
  moreover have "k \<noteq> ''__proto__''" using assms(2,3) by force
  ultimately show ?thesis
    by (auto simp: js_get_def map_of_parsed [OF assms(1)] field)
qed

lemma map_of_parsed_extra:
  assumes "distinct (map fst shape)" and "k \<notin> fst ` set shape"
  shows "map_of (foldl merge_step [] (object_pairs shape (Some z_unknown) props)) k =
     (if k = ''__proto__'' then None else map_of props k)"
proof -
  have none: "map_of shape k = None"
    using assms(2) by (simp add: map_of_eq_None_iff)
  have field: "field_result shape (Some z_unknown) props k = Inr (js_get props k)"
    by (simp add: field_result_def none z_unknown_def)
  show ?thesis
  proof (cases "map_of props k")
    case None
    then have "k \<notin> fst ` set props" by (simp add: map_of_eq_None_iff)
    then show ?thesis
      using assms(2) None by (simp add: map_of_parsed [OF assms(1)])
  next
    case (Some v)
    then have "k \<in> fst ` set props" by (metis map_of_eq_None_iff option.distinct(1))
    then show ?thesis
      using assms(2) Some by (simp add: map_of_parsed [OF assms(1)] field js_has_def js_get_def)
  qed
qed

lemma map_of_parsed_stripped:
  assumes "distinct (map fst shape)" and "k \<notin> fst ` set shape"
  shows "map_of (foldl merge_step [] (object_pairs shape None props)) k = None"
  using assms(2) by (simp add: map_of_parsed [OF assms(1)])

lemma pairs_ok_preferences:
  "list_all (\<lambda>(key, val, alwaysSet). \<not> isl val)
     (object_pairs (preferences_shape e) (Some z_unknown) props) = fields_ok e props"
proof -
  have extra: "list_all (\<lambda>(key, val, alwaysSet). \<not> isl val)
      (map (\<lambda>key. (key, z_unknown (js_get props key), js_has props key)) keys)" for keys
    by (induction keys) (simp_all add: z_unknown_def)
  have shape: "list_all (\<lambda>(key, val, alwaysSet). \<not> isl val)
      (map (\<lambda>(key, validator). (key, validator (js_get props key), js_has props key)) shape) =
      list_all (\<lambda>(key, validator). \<not> isl (validator (js_get props key))) shape" for shape
    by (induction shape) auto
  show ?thesis
    by (simp add: object_pairs_def fields_ok_def extra shape)
qed

lemma validate_eq:
  "validate e input =
     (case preferences_preprocess e input of
        JObj props \<Rightarrow>
          if fields_ok e props then Inr (JObj (transform_result (parsed_data e props)))
          else Inl ValidationError
      | _ \<Rightarrow> Inl ValidationError)"
  by (cases "preferences_preprocess e input")
     (simp_all add: validate_def PreferencesSchema_def z_preprocess_def z_transform_def
        z_object_eq pairs_ok_preferences parsed_data_def preferences_transform_def)

lemma shape_keys:
  "map fst (preferences_shape e) =
     [''chainIds'', ''tokenSymbols'', ''chains'', ''tokens'', ''redirectUrl'', ''currency'',
      ''amount'', ''webhooks'', ''og'']"
  by (simp add: preferences_shape_def)

lemma distinct_shape: "distinct (map fst (preferences_shape e))"
  by (simp add: shape_keys)

lemma distinct_parsed_data: "distinct (map fst (parsed_data e props))"
  by (simp add: parsed_data_def distinct_foldl_merge_step)

lemma map_of_transform_result:
  assumes "distinct (map fst d)"
  shows "map_of (transform_result d) k =
     (let v =
        (if k = ''chainIds''
           then Some (nullish (js_get d ''chains'') (nullish (js_get d ''chainIds'') (JArr [])))
         else if k = ''tokenSymbols''
           then Some (nullish (js_get d ''tokens'') (nullish (js_get d ''tokenSymbols'') (JArr [])))
         else if k \<in> set [''redirectUrl'', ''currency'', ''amount'', ''webhooks'', ''og'']
           then Some (js_get d k)
         else if k \<in> set [''chains'', ''tokens''] then None
         else map_of d k)
      in case v of Some w \<Rightarrow> if w = JUndefined then None else Some w | None \<Rightarrow> None)"
proof -
  define known where "known =
     [(''chainIds'', nullish (js_get d ''chains'') (nullish (js_get d ''chainIds'') (JArr []))),
      (''tokenSymbols'', nullish (js_get d ''tokens'') (nullish (js_get d ''tokenSymbols'') (JArr []))),
      (''redirectUrl'', js_get d ''redirectUrl''),
      (''currency'', js_get d ''currency''),
      (''amount'', js_get d ''amount''),
      (''webhooks'', js_get d ''webhooks''),
      (''og'', js_get d ''og'')]"
  define other where "other = filter (\<lambda>(key, v). key \<notin> set destructured_keys) d"
  have d_other: "distinct (map fst other)"
    unfolding other_def using assms by (rule distinct_filter_keys)
  have d_known: "distinct (map fst known)"
    by (simp add: known_def)
  have result: "transform_result d = remove_undefined (spread known other)"
    by (simp add: transform_result_def Let_def known_def other_def)
  have m_other: "map_of other k = (if k \<notin> set destructured_keys then map_of d k else None)"
    unfolding other_def by (rule map_of_filter_keys)
  have m_spread: "map_of (spread known other) k =
      (case map_of other k of Some v \<Rightarrow> Some v | None \<Rightarrow> map_of known k)"
    using d_other by (rule map_of_spread)
  have m_result: "map_of (transform_result d) k =
      (case map_of (spread known other) k of
         Some v \<Rightarrow> if v = JUndefined then None else Some v | None \<Rightarrow> None)"
    unfolding result using d_known by (intro map_of_remove_undefined distinct_spread)
  show ?thesis
  proof (cases "k \<in> set destructured_keys")
    case True
    then have "map_of (spread known other) k = map_of known k"
      by (simp add: m_spread m_other)
    with True show ?thesis
      unfolding m_result by (auto simp: known_def destructured_keys_def)
  next
    case False
    then have "map_of known k = None"
      by (simp add: known_def destructured_keys_def)
    with False have "map_of (spread known other) k = map_of d k"
      by (simp add: m_spread m_other split: option.splits)
    with False show ?thesis
      unfolding m_result by (simp add: destructured_keys_def)
  qed
qed

lemma distinct_transform_result:
  "distinct (map fst d) \<Longrightarrow> distinct (map fst (transform_result d))"
  unfolding transform_result_def Let_def remove_undefined_def
  by (intro distinct_filter_keys distinct_spread) simp

section \<open>The preferences schema: merging, malformed and blank input\<close>

lemmas schema_defs =
  validate_def PreferencesSchema_def z_preprocess_def z_transform_def z_object_def
  preferences_shape_def z_optional_def z_unknown_def js_get_def js_has_def
  preferences_transform_def transform_result_def nullish_def spread_def
  destructured_keys_def remove_undefined_def Let_def

lemma proto_not_in_shape: "''__proto__'' \<notin> fst ` set (preferences_shape e)"
  by (simp add: preferences_shape_def)

lemma js_get_parsed_data:
  assumes "fields_ok e props" and "(k, validator) \<in> set (preferences_shape e)"
  shows "validator (js_get props k) = Inr (js_get (parsed_data e props) k)"
proof -
  from assms have "\<not> isl (validator (js_get props k))"
    by (auto simp: fields_ok_def list_all_iff)
  then obtain v where v: "validator (js_get props k) = Inr v"
    by (cases "validator (js_get props k)") auto
  have "js_get (parsed_data e props) k = v"
    unfolding parsed_data_def
    using distinct_shape proto_not_in_shape assms(2) v by (rule js_get_parsed_shape)
  with v show ?thesis by simp
qed

lemma ChainConfigSchema_array:
  "ChainConfigSchema e v = Inr c \<Longrightarrow> \<exists>xs. c = JArr xs"
  by (cases "chain_preprocess e v") (auto simp: ChainConfigSchema_eq split: if_splits)

lemma z_array_string:
  "z_array z_string v =
     (case v of
        JArr xs \<Rightarrow> if list_all (\<lambda>x. \<exists>s. x = JStr s) xs then Inr v else Inl ValidationError
      | _ \<Rightarrow> Inl ValidationError)"
proof -
  have "\<And>x. z_string x = (if (\<exists>s. x = JStr s) then Inr x else Inl ValidationError)"
    by (auto simp: z_string_def split: jsval.splits)
  then show ?thesis
    by (cases v) (simp_all add: z_array_def all_valid_map_test)
qed

lemma TokenConfigSchema_eq:
  "TokenConfigSchema input =
     (case token_preprocess input of
        JArr xs \<Rightarrow> if list_all (\<lambda>x. \<exists>s. x = JStr s) xs then Inr (JArr xs)
                   else Inl ValidationError
      | _ \<Rightarrow> Inl ValidationError)"
  by (cases "token_preprocess input")
     (simp_all add: TokenConfigSchema_def z_preprocess_def z_array_string)

lemma TokenConfigSchema_array:
  assumes "TokenConfigSchema v = Inr c"
  shows "\<exists>xs. c = JArr xs"
proof (cases "token_preprocess v")
  case (JArr xs)
  with assms have "c = JArr xs"
    by (simp add: TokenConfigSchema_eq split: if_splits)
  then show ?thesis by blast
qed (insert assms, simp_all add: TokenConfigSchema_eq)

lemma merged_field:
  assumes "z_optional inner a = Inr ca" and "z_optional inner b = Inr cb"
    and "\<And>v c. inner v = Inr c \<Longrightarrow> \<exists>xs. c = JArr xs"
  shows "Inr (nullish ca (nullish cb (JArr []))) =
     (if a \<noteq> JUndefined then inner a else if b \<noteq> JUndefined then inner b else Inr (JArr []))"
proof (cases "a = JUndefined")
  case False
  with assms(1) have "inner a = Inr ca" by (simp add: z_optional_def)
  moreover from this assms(3) obtain xs where "ca = JArr xs" by blast
  ultimately show ?thesis using False by (simp add: nullish_def)
next
  case True
  with assms(1) have ca: "ca = JUndefined" by (simp add: z_optional_def)
  show ?thesis
  proof (cases "b = JUndefined")
    case False
    with assms(2) have "inner b = Inr cb" by (simp add: z_optional_def)
    moreover from this assms(3) obtain xs where "cb = JArr xs" by blast
    ultimately show ?thesis using False True ca by (simp add: nullish_def)
  next
    case b: True
    with assms(2) have "cb = JUndefined" by (simp add: z_optional_def)
    with True b ca show ?thesis by (simp add: nullish_def)
  qed
qed

lemma validate_Inr:
  assumes "validate e input = Inr out"
  obtains props where "preferences_preprocess e input = JObj props" and "fields_ok e props"
    and "out = JObj (transform_result (parsed_data e props))"
  using assms by (auto simp: validate_eq split: jsval.splits if_splits)

lemma js_get_transform_chainIds:
  assumes "distinct (map fst d)"
  shows "js_get (transform_result d) ''chainIds'' =
     nullish (js_get d ''chains'') (nullish (js_get d ''chainIds'') (JArr []))"
  by (simp add: js_get_def [of "transform_result d"] map_of_transform_result [OF assms])

lemma js_get_transform_tokenSymbols:
  assumes "distinct (map fst d)"
  shows "js_get (transform_result d) ''tokenSymbols'' =
     nullish (js_get d ''tokens'') (nullish (js_get d ''tokenSymbols'') (JArr []))"
  by (simp add: js_get_def [of "transform_result d"] map_of_transform_result [OF assms])

lemma js_get_transform_known:
  assumes "distinct (map fst d)"
    and "k \<in> set [''redirectUrl'', ''currency'', ''amount'', ''webhooks'', ''og'']"
  shows "js_get (transform_result d) k = js_get d k"
  using assms(2)
  by (auto simp: js_get_def [of "transform_result d"] map_of_transform_result [OF assms(1)])

lemma map_of_transform_dropped:
  assumes "distinct (map fst d)" and "k \<in> set [''chains'', ''tokens'']"
  shows "map_of (transform_result d) k = None"
  using assms(2) by (auto simp: map_of_transform_result [OF assms(1)])

lemma map_of_transform_other:
  assumes "distinct (map fst d)" and "k \<notin> set destructured_keys"
  shows "map_of (transform_result d) k =
     (case map_of d k of Some v \<Rightarrow> if v = JUndefined then None else Some v | None \<Rightarrow> None)"
  using assms(2) by (simp add: map_of_transform_result [OF assms(1)] destructured_keys_def)

text \<open>
  C1 (amended). When \<open>validate\<close> accepts an input, the \<open>chainIds\<close> of the result is
  the validated \<open>chains\<close> field if the input has one, else the validated \<open>chainIds\<close>
  field if it has one, else the empty array; \<open>tokenSymbols\<close> is obtained in the same way
  from \<open>tokens\<close> and \<open>tokenSymbols\<close>; the result has no \<open>chains\<close> and no \<open>tokens\<close>
  property; and every unrecognized key other than \<open>__proto__\<close> whose value is not
  \<open>undefined\<close> is in the result with its value unchanged.
\<close>

theorem validate_merges_fields:
  assumes "validate e input = Inr out"
  shows "\<exists>props result.
     preferences_preprocess e input = JObj props \<and> out = JObj result \<and>
     Inr (js_get result ''chainIds'') =
       (if js_get props ''chains'' \<noteq> JUndefined then ChainConfigSchema e (js_get props ''chains'')
        else if js_get props ''chainIds'' \<noteq> JUndefined
          then ChainConfigSchema e (js_get props ''chainIds'')
        else Inr (JArr [])) \<and>
     Inr (js_get result ''tokenSymbols'') =
       (if js_get props ''tokens'' \<noteq> JUndefined then TokenConfigSchema (js_get props ''tokens'')
        else if js_get props ''tokenSymbols'' \<noteq> JUndefined
          then TokenConfigSchema (js_get props ''tokenSymbols'')
        else Inr (JArr [])) \<and>
     \<not> js_has result ''chains'' \<and> \<not> js_has result ''tokens'' \<and>
     (\<forall>key. key \<notin> fst ` set (preferences_shape e) \<and> key \<noteq> ''__proto__'' \<and>
            js_get props key \<noteq> JUndefined \<longrightarrow>
            map_of result key = Some (js_get props key))"
proof -
  from assms obtain props where pre: "preferences_preprocess e input = JObj props"
    and ok: "fields_ok e props"
    and out: "out = JObj (transform_result (parsed_data e props))"
    by (rule validate_Inr)
  let ?d = "parsed_data e props"
  let ?r = "transform_result ?d"
  have dist: "distinct (map fst ?d)" by (rule distinct_parsed_data)
  have chains: "z_optional (ChainConfigSchema e) (js_get props ''chains'') = Inr (js_get ?d ''chains'')"
    by (rule js_get_parsed_data [OF ok]) (simp add: preferences_shape_def)
  have chainIds: "z_optional (ChainConfigSchema e) (js_get props ''chainIds'') = Inr (js_get ?d ''chainIds'')"
    by (rule js_get_parsed_data [OF ok]) (simp add: preferences_shape_def)
  have tokens: "z_optional TokenConfigSchema (js_get props ''tokens'') = Inr (js_get ?d ''tokens'')"
    by (rule js_get_parsed_data [OF ok]) (simp add: preferences_shape_def)
  have tokenSymbols: "z_optional TokenConfigSchema (js_get props ''tokenSymbols'') = Inr (js_get ?d ''tokenSymbols'')"
    by (rule js_get_parsed_data [OF ok]) (simp add: preferences_shape_def)
  have c1: "Inr (js_get ?r ''chainIds'') =
       (if js_get props ''chains'' \<noteq> JUndefined then ChainConfigSchema e (js_get props ''chains'')
        else if js_get props ''chainIds'' \<noteq> JUndefined
          then ChainConfigSchema e (js_get props ''chainIds'')
        else Inr (JArr []))"
    unfolding js_get_transform_chainIds [OF dist]
    using chains chainIds ChainConfigSchema_array by (rule merged_field)
  have c2: "Inr (js_get ?r ''tokenSymbols'') =
       (if js_get props ''tokens'' \<noteq> JUndefined then TokenConfigSchema (js_get props ''tokens'')
        else if js_get props ''tokenSymbols'' \<noteq> JUndefined
          then TokenConfigSchema (js_get props ''tokenSymbols'')
        else Inr (JArr []))"
    unfolding js_get_transform_tokenSymbols [OF dist]
    using tokens tokenSymbols TokenConfigSchema_array by (rule merged_field)
  have c3: "\<not> js_has ?r ''chains'' \<and> \<not> js_has ?r ''tokens''"
    by (simp add: js_has_def map_of_transform_dropped [OF dist])
  have c4: "map_of ?r key = Some (js_get props key)"
    if key: "key \<notin> fst ` set (preferences_shape e) \<and> key \<noteq> ''__proto__'' \<and>
            js_get props key \<noteq> JUndefined" for key
  proof -
    from key obtain v where v: "map_of props key = Some v" "v \<noteq> JUndefined"
      by (auto simp: js_get_def split: option.splits)
    from key have "map_of ?d key = map_of props key"
      unfolding parsed_data_def by (simp add: map_of_parsed_extra [OF distinct_shape])
    moreover from key have "key \<notin> set destructured_keys"
      by (simp add: destructured_keys_def preferences_shape_def)
    ultimately show ?thesis
      using v by (simp add: map_of_transform_other [OF dist] js_get_def)
  qed
  from pre out c1 c2 c3 c4 show ?thesis by blast
qed


lemma validate_example:
  "validate small_engine
     (JObj [(''chains'', JArr [JNum (Fin 1)]), (''chainIds'', JArr [JNum (Fin 137)]),
            (''tokens'', JStr ''USDC, DAI''), (''memo'', JStr ''x'')]) =
   Inr (JObj [(''chainIds'', JArr [JNum (Fin 1)]),
              (''tokenSymbols'', JArr [JStr ''USDC'', JStr ''DAI'']),
              (''memo'', JStr ''x'')])"
  by (simp add: schema_defs preferences_preprocess_def ChainConfigSchema_eq
      chain_preprocess_def string_or_number_def resolve_element_def is_supported_def
      strict_eq_num_def registry_defs resolved_value_def TokenConfigSchema_eq
      token_preprocess_def commaStringToArray_def trim_def is_space_def)

theorem validate_merges_fields_witness:
  "validate small_engine
     (JObj [(''chains'', JArr [JNum (Fin 1)]), (''chainIds'', JArr [JNum (Fin 137)]),
            (''tokens'', JStr ''USDC, DAI''), (''memo'', JStr ''x'')]) =
   Inr (JObj [(''chainIds'', JArr [JNum (Fin 1)]),
              (''tokenSymbols'', JArr [JStr ''USDC'', JStr ''DAI'']),
              (''memo'', JStr ''x'')]) \<and>
   (\<exists>props result.
     preferences_preprocess small_engine
       (JObj [(''chains'', JArr [JNum (Fin 1)]), (''chainIds'', JArr [JNum (Fin 137)]),
              (''tokens'', JStr ''USDC, DAI''), (''memo'', JStr ''x'')]) = JObj props \<and>
     JObj [(''chainIds'', JArr [JNum (Fin 1)]),
           (''tokenSymbols'', JArr [JStr ''USDC'', JStr ''DAI'']),
           (''memo'', JStr ''x'')] = JObj result \<and>
     Inr (js_get result ''chainIds'') =
       (if js_get props ''chains'' \<noteq> JUndefined
          then ChainConfigSchema small_engine (js_get props ''chains'')
        else if js_get props ''chainIds'' \<noteq> JUndefined
          then ChainConfigSchema small_engine (js_get props ''chainIds'')
        else Inr (JArr [])) \<and>
     Inr (js_get result ''tokenSymbols'') =
       (if js_get props ''tokens'' \<noteq> JUndefined then TokenConfigSchema (js_get props ''tokens'')
        else if js_get props ''tokenSymbols'' \<noteq> JUndefined
          then TokenConfigSchema (js_get props ''tokenSymbols'')
        else Inr (JArr [])) \<and>
     \<not> js_has result ''chains'' \<and> \<not> js_has result ''tokens'' \<and>
     (\<forall>key. key \<notin> fst ` set (preferences_shape small_engine) \<and> key \<noteq> ''__proto__'' \<and>
            js_get props key \<noteq> JUndefined \<longrightarrow>
            map_of result key = Some (js_get props key)))"
  using validate_merges_fields [OF validate_example] validate_example by blast

text \<open>
  The claim as stated, for every unrecognized key, fails: an unrecognized key whose value
  is \<open>undefined\<close> is deleted with the other undefined properties, and zod never copies
  the key \<open>__proto__\<close>. Neither key of this input is in the result.
\<close>

theorem validate_unrecognized_keys_counterexample:
  "validate small_engine (JObj [(''memo'', JUndefined), (''__proto__'', JNum (Fin 1))]) =
     Inr (JObj [(''chainIds'', JArr []), (''tokenSymbols'', JArr [])]) \<and>
   ''memo'' \<notin> fst ` set (preferences_shape small_engine) \<and>
   ''__proto__'' \<notin> fst ` set (preferences_shape small_engine) \<and>
   \<not> js_has [(''chainIds'', JArr []), (''tokenSymbols'', JArr [])] ''memo'' \<and>
   \<not> js_has [(''chainIds'', JArr []), (''tokenSymbols'', JArr [])] ''__proto__''"
  by (simp add: schema_defs preferences_preprocess_def)

lemma validate_not_object:
  assumes "\<And>props. preferences_preprocess e input \<noteq> JObj props"
  shows "validate e input = Inl ValidationError"
  using assms by (cases "preferences_preprocess e input") (auto simp: validate_eq)

lemma validate_empty_object:
  assumes "preferences_preprocess e input = JObj []"
  shows "validate e input = Inr (JObj [(''chainIds'', JArr []), (''tokenSymbols'', JArr [])])"
  by (simp add: schema_defs assms)

lemma preprocess_blank:
  "trim s = [] \<Longrightarrow> preferences_preprocess e (JStr s) = JStr s"
  by (simp add: preferences_preprocess_def)

lemma preprocess_malformed:
  "trim s \<noteq> [] \<Longrightarrow> json_parse e s = None \<Longrightarrow> preferences_preprocess e (JStr s) = JObj []"
  by (simp add: preferences_preprocess_def)

lemma trim_space: "trim '' '' = []"
  by (simp add: trim_def is_space_def)

lemma trim_not_valid: "trim ''{not valid'' = ''{not valid''"
  by (simp add: trim_def is_space_def)

lemma parse_not_valid: "json_parse small_engine ''{not valid'' = None"
  unfolding small_engine_simps by code_simp

lemma parse_space: "json_parse small_engine '' '' = None"
  unfolding small_engine_simps by code_simp

text \<open>
  C4 (amended). For every string that has a character other than white space and that
  \<open>JSON.parse\<close> rejects, \<open>validate\<close> raises nothing and returns the object with the
  two defaults, \<open>chainIds\<close> and \<open>tokenSymbols\<close> empty, and no other key.
\<close>

theorem validate_malformed_json:
  assumes "trim s \<noteq> []" and "json_parse e s = None"
  shows "validate e (JStr s) = Inr (JObj [(''chainIds'', JArr []), (''tokenSymbols'', JArr [])])"
  using assms by (intro validate_empty_object preprocess_malformed)

theorem validate_malformed_json_witness:
  "trim ''{not valid'' \<noteq> [] \<and> json_parse small_engine ''{not valid'' = None \<and>
   validate small_engine (JStr ''{not valid'') =
     Inr (JObj [(''chainIds'', JArr []), (''tokenSymbols'', JArr [])])"
  using validate_malformed_json [of "''{not valid''" small_engine]
  by (simp add: trim_not_valid parse_not_valid)

text \<open>
  The claim as stated, for every non-empty string, fails on a string of white space:
  it is not empty and is not JSON, and \<open>validate\<close> fails.
\<close>

theorem validate_malformed_json_counterexample:
  "'' '' \<noteq> [] \<and> json_parse small_engine '' '' = None \<and>
   validate small_engine (JStr '' '') = Inl ValidationError"
  by (simp add: parse_space validate_not_object preprocess_blank trim_space)

text \<open>
  C10. For the empty string and for a string of white space, the preprocessing returns the
  string unchanged, whatever \<open>JSON.parse\<close> would do with it, and validation fails with
  a ValidationError; a string with other characters that is not JSON gives the object
  with the two defaults.
\<close>

theorem validate_blank_string:
  "(trim s = [] \<longrightarrow>
      preferences_preprocess e (JStr s) = JStr s \<and> validate e (JStr s) = Inl ValidationError) \<and>
   (trim s \<noteq> [] \<and> json_parse e s = None \<longrightarrow>
      preferences_preprocess e (JStr s) = JObj [] \<and>
      validate e (JStr s) = Inr (JObj [(''chainIds'', JArr []), (''tokenSymbols'', JArr [])])) \<and>
   trim [] = []"
  by (simp add: preprocess_blank preprocess_malformed validate_not_object validate_empty_object
      trim_def)

theorem validate_blank_string_witness:
  "trim ''  '' = [] \<and>
   preferences_preprocess small_engine (JStr ''  '') = JStr ''  '' \<and>
   validate small_engine (JStr ''  '') = Inl ValidationError \<and>
   validate small_engine (JStr []) = Inl ValidationError \<and>
   trim ''{not valid'' \<noteq> [] \<and> json_parse small_engine ''{not valid'' = None \<and>
   validate small_engine (JStr ''{not valid'') =
     Inr (JObj [(''chainIds'', JArr []), (''tokenSymbols'', JArr [])])"
proof -
  have blank: "trim ''  '' = []" by (simp add: trim_def is_space_def)
  have empty: "trim [] = []" by (simp add: trim_def)
  from validate_blank_string [of "''  ''" small_engine] validate_blank_string [of "[]" small_engine]
    validate_blank_string [of "''{not valid''" small_engine] blank empty
  show ?thesis
    by (simp add: trim_not_valid parse_not_valid)
qed

section \<open>The preferences schema: idempotence\<close>

lemma optional_identity:
  assumes "\<And>x v. inner x = Inr v \<Longrightarrow> v = x" and "z_optional inner a = Inr v"
  shows "z_optional inner v = Inr v"
proof (cases "a = JUndefined")
  case True
  with assms(2) show ?thesis by (simp add: z_optional_def)
next
  case False
  with assms(2) have "inner a = Inr v" by (simp add: z_optional_def)
  moreover from this have "v = a" by (rule assms(1))
  ultimately show ?thesis using assms(2) by simp
qed

lemma z_string_identity: "z_string x = Inr v \<Longrightarrow> v = x"
  by (cases x) (simp_all add: z_string_def)

lemma z_string_url_identity: "z_string_url e x = Inr v \<Longrightarrow> v = x"
  by (cases x) (simp_all add: z_string_url_def split: if_splits)

lemma z_number_nonnegative_identity: "z_number_nonnegative x = Inr v \<Longrightarrow> v = x"
  by (cases x) (simp_all add: z_number_nonnegative_def split: if_splits)

lemma z_refine_identity:
  assumes "\<And>x v. inner x = Inr v \<Longrightarrow> v = x" and "z_refine check inner x = Inr v"
  shows "v = x"
proof (cases "inner x")
  case (Inl err)
  with assms(2) show ?thesis by (simp add: z_refine_def)
next
  case (Inr w)
  then have "w = x" by (rule assms(1))
  with Inr assms(2) show ?thesis by (simp add: z_refine_def split: if_splits)
qed

lemma all_valid_identity:
  assumes "\<And>x v. element x = Inr v \<Longrightarrow> v = x"
  shows "all_valid (map element xs) = Inr ys \<Longrightarrow> ys = xs"
proof (induction xs arbitrary: ys)
  case Nil
  then show ?case by simp
next
  case (Cons x xs)
  from Cons.prems obtain v vs where v: "element x = Inr v"
    and vs: "all_valid (map element xs) = Inr vs" and ys: "ys = v # vs"
    by (auto split: sum.splits)
  from v have "v = x" by (rule assms)
  moreover from vs have "vs = xs" by (rule Cons.IH)
  ultimately show ?case using ys by simp
qed

lemma z_array_max_identity:
  assumes "\<And>x v. element x = Inr v \<Longrightarrow> v = x" and "z_array_max n element x = Inr v"
  shows "v = x"
proof (cases x)
  case (JArr xs)
  with assms(2) obtain ys where "all_valid (map element xs) = Inr ys" and "v = JArr ys"
    by (auto simp: z_array_max_def z_array_def split: if_splits sum.splits)
  with all_valid_identity [OF assms(1)] JArr show ?thesis by blast
qed (insert assms(2), simp_all add: z_array_max_def)

lemma webhooks_identity:
  "z_array_max 15 (z_refine is_https (z_string_url e)) x = Inr v \<Longrightarrow> v = x"
  by (erule z_array_max_identity [rotated]) (erule z_refine_identity [rotated], erule z_string_url_identity)

lemma og_revalidates:
  assumes "z_optional (z_object [(''baseUrl'', z_optional (z_string_url e))] None) a = Inr v"
  shows "\<exists>v'. z_optional (z_object [(''baseUrl'', z_optional (z_string_url e))] None) v = Inr v'"
proof (cases "a = JUndefined")
  case True
  with assms show ?thesis by (simp add: z_optional_def)
next
  case False
  with assms have obj: "z_object [(''baseUrl'', z_optional (z_string_url e))] None a = Inr v" by (simp add: z_optional_def)
  then obtain p where a: "a = JObj p"
    by (cases a) (simp_all add: z_object_def)
  let ?q = "foldl merge_step [] (object_pairs [(''baseUrl'', z_optional (z_string_url e))] None p)"
  from obj a have ok: "\<not> isl (z_optional (z_string_url e) (js_get p ''baseUrl''))"
    and v: "v = JObj ?q"
    by (auto simp: z_object_eq object_pairs_def split: if_splits)
  from ok obtain w where w: "z_optional (z_string_url e) (js_get p ''baseUrl'') = Inr w"
    by (cases "z_optional (z_string_url e) (js_get p ''baseUrl'')") auto
  have "js_get ?q ''baseUrl'' = w"
    by (rule js_get_parsed_shape [where validator = "z_optional (z_string_url e)"])
       (simp_all add: w)
  moreover have "z_optional (z_string_url e) w = Inr w"
    using z_string_url_identity w by (rule optional_identity)
  ultimately have "z_object [(''baseUrl'', z_optional (z_string_url e))] None (JObj ?q) =
      Inr (JObj (foldl merge_step [] (object_pairs [(''baseUrl'', z_optional (z_string_url e))] None ?q)))"
    by (simp add: z_object_eq object_pairs_def)
  then show ?thesis
    by (simp add: v z_optional_def)
qed

lemma supported_ids:
  "\<exists>ids. map resolved_value (filter is_supported rs) = map JNum ids \<and>
         list_all (\<lambda>n. is_supported (Resolved n)) ids"
proof -
  obtain ids where ids: "map resolved_value (filter is_supported rs) = map JNum ids"
    "map Resolved ids = filter is_supported rs"
    using supported_values by blast
  have "list_all (\<lambda>n. is_supported (Resolved n)) ids"
    unfolding list_all_iff
  proof
    fix n assume "n \<in> set ids"
    then have "Resolved n \<in> set (map Resolved ids)" by simp
    then show "is_supported (Resolved n)" unfolding ids(2) by simp
  qed
  with ids(1) show ?thesis by blast
qed

lemma ChainConfigSchema_canonical:
  assumes "list_all (\<lambda>n. is_supported (Resolved n)) ids"
  shows "ChainConfigSchema e (JArr (map JNum ids)) = Inr (JArr (map JNum ids))"
proof -
  have not_nan: "list_all string_or_number (map JNum ids)"
    using assms
    by (induction ids) (auto simp: string_or_number_def is_supported_def strict_eq_num_def list_ex_iff)
  have keep: "map resolved_value (filter is_supported (map (resolve_element e \<circ> JNum) ids)) =
      map JNum ids"
    using assms by (induction ids) (simp_all add: resolve_element_def resolved_value_def)
  show ?thesis
    by (simp add: ChainConfigSchema_eq chain_preprocess_def not_nan keep)
qed

lemma ChainConfigSchema_idempotent:
  assumes "ChainConfigSchema e v = Inr c"
  shows "ChainConfigSchema e c = Inr c"
proof -
  from assms obtain xs where
    "c = JArr (map resolved_value (filter is_supported (map (resolve_element e) xs)))"
    by (cases "chain_preprocess e v") (auto simp: ChainConfigSchema_eq split: if_splits)
  with supported_ids obtain ids where "c = JArr (map JNum ids)"
    and "list_all (\<lambda>n. is_supported (Resolved n)) ids" by metis
  then show ?thesis by (simp add: ChainConfigSchema_canonical)
qed

lemma TokenConfigSchema_idempotent:
  assumes "TokenConfigSchema v = Inr c"
  shows "TokenConfigSchema c = Inr c"
proof (cases "token_preprocess v")
  case (JArr xs)
  with assms have "c = JArr xs" and "list_all (\<lambda>x. \<exists>s. x = JStr s) xs"
    by (simp_all add: TokenConfigSchema_eq split: if_splits)
  then show ?thesis
    by (simp add: TokenConfigSchema_eq token_preprocess_def)
qed (insert assms, simp_all add: TokenConfigSchema_eq)

lemma merged_revalidates:
  assumes "z_optional inner a = Inr ca" and "z_optional inner b = Inr cb"
    and "\<And>v c. inner v = Inr c \<Longrightarrow> inner c = Inr c"
    and "\<And>v c. inner v = Inr c \<Longrightarrow> \<exists>xs. c = JArr xs"
    and "inner (JArr []) = Inr (JArr [])"
  shows "z_optional inner (nullish ca (nullish cb (JArr []))) =
           Inr (nullish ca (nullish cb (JArr []))) \<and>
         (\<exists>xs. nullish ca (nullish cb (JArr [])) = JArr xs)"
proof -
  have field: "c = JUndefined \<or> (inner c = Inr c \<and> (\<exists>xs. c = JArr xs))"
    if "z_optional inner x = Inr c" for x c
    using that assms(3,4) by (cases "x = JUndefined") (auto simp: z_optional_def)
  from field [OF assms(1)] field [OF assms(2)] assms(5) show ?thesis
    by (auto simp: nullish_def z_optional_def)
qed


text \<open>
  C8. \<open>validate\<close> is idempotent on its own output: when it accepts an input, it
  accepts the object it returned, and the second result has the same \<open>chainIds\<close> and the
  same \<open>tokenSymbols\<close> as the first.
\<close>

theorem validate_idempotent:
  assumes "validate e input = Inr out"
  shows "\<exists>again r r'.
     validate e out = Inr again \<and> out = JObj r \<and> again = JObj r' \<and>
     js_get r' ''chainIds'' = js_get r ''chainIds'' \<and>
     js_get r' ''tokenSymbols'' = js_get r ''tokenSymbols''"
proof -
  from assms obtain props where ok: "fields_ok e props"
    and out: "out = JObj (transform_result (parsed_data e props))"
    by (rule validate_Inr)
  let ?d = "parsed_data e props"
  let ?r = "transform_result ?d"
  have dist: "distinct (map fst ?d)" by (rule distinct_parsed_data)
  have dist_r: "distinct (map fst ?r)" using dist by (rule distinct_transform_result)
  note field = js_get_parsed_data [OF ok]
  have chains: "z_optional (ChainConfigSchema e) (js_get props ''chains'') = Inr (js_get ?d ''chains'')"
    by (rule field) (simp add: preferences_shape_def)
  have chainIds: "z_optional (ChainConfigSchema e) (js_get props ''chainIds'') = Inr (js_get ?d ''chainIds'')"
    by (rule field) (simp add: preferences_shape_def)
  have tokens: "z_optional TokenConfigSchema (js_get props ''tokens'') = Inr (js_get ?d ''tokens'')"
    by (rule field) (simp add: preferences_shape_def)
  have tokenSymbols: "z_optional TokenConfigSchema (js_get props ''tokenSymbols'') = Inr (js_get ?d ''tokenSymbols'')"
    by (rule field) (simp add: preferences_shape_def)
  have redirectUrl: "z_optional (z_string_url e) (js_get props ''redirectUrl'') = Inr (js_get ?d ''redirectUrl'')"
    by (rule field) (simp add: preferences_shape_def)
  have currency: "z_optional z_string (js_get props ''currency'') = Inr (js_get ?d ''currency'')"
    by (rule field) (simp add: preferences_shape_def)
  have amount: "z_optional z_number_nonnegative (js_get props ''amount'') = Inr (js_get ?d ''amount'')"
    by (rule field) (simp add: preferences_shape_def)
  have webhooks: "z_optional (z_array_max 15 (z_refine is_https (z_string_url e))) (js_get props ''webhooks'') =
      Inr (js_get ?d ''webhooks'')"
    by (rule field) (simp add: preferences_shape_def)
  have og: "z_optional (z_object [(''baseUrl'', z_optional (z_string_url e))] None) (js_get props ''og'') =
      Inr (js_get ?d ''og'')"
    by (rule field) (simp add: preferences_shape_def)
  have chain_empty: "ChainConfigSchema e (JArr []) = Inr (JArr [])"
    using ChainConfigSchema_canonical [of "[]" e] by simp
  have token_empty: "TokenConfigSchema (JArr []) = Inr (JArr [])"
    by (simp add: TokenConfigSchema_eq token_preprocess_def)
  have "z_optional (ChainConfigSchema e)
          (nullish (js_get ?d ''chains'') (nullish (js_get ?d ''chainIds'') (JArr []))) =
        Inr (nullish (js_get ?d ''chains'') (nullish (js_get ?d ''chainIds'') (JArr []))) \<and>
        (\<exists>xs. nullish (js_get ?d ''chains'') (nullish (js_get ?d ''chainIds'') (JArr [])) = JArr xs)"
  proof (rule merged_revalidates [OF chains chainIds])
    show "\<And>v c. ChainConfigSchema e v = Inr c \<Longrightarrow> ChainConfigSchema e c = Inr c"
      by (rule ChainConfigSchema_idempotent)
    show "\<And>v c. ChainConfigSchema e v = Inr c \<Longrightarrow> \<exists>xs. c = JArr xs"
      by (rule ChainConfigSchema_array)
    show "ChainConfigSchema e (JArr []) = Inr (JArr [])"
      by (rule chain_empty)
  qed
  then have r_chainIds:
      "z_optional (ChainConfigSchema e) (js_get ?r ''chainIds'') = Inr (js_get ?r ''chainIds'')"
    and arr_chainIds: "\<exists>xs. js_get ?r ''chainIds'' = JArr xs"
    by (simp_all add: js_get_transform_chainIds [OF dist])
  have "z_optional TokenConfigSchema
          (nullish (js_get ?d ''tokens'') (nullish (js_get ?d ''tokenSymbols'') (JArr []))) =
        Inr (nullish (js_get ?d ''tokens'') (nullish (js_get ?d ''tokenSymbols'') (JArr []))) \<and>
        (\<exists>xs. nullish (js_get ?d ''tokens'') (nullish (js_get ?d ''tokenSymbols'') (JArr [])) = JArr xs)"
  proof (rule merged_revalidates [OF tokens tokenSymbols])
    show "\<And>v c. TokenConfigSchema v = Inr c \<Longrightarrow> TokenConfigSchema c = Inr c"
      by (rule TokenConfigSchema_idempotent)
    show "\<And>v c. TokenConfigSchema v = Inr c \<Longrightarrow> \<exists>xs. c = JArr xs"
      by (rule TokenConfigSchema_array)
    show "TokenConfigSchema (JArr []) = Inr (JArr [])"
      by (rule token_empty)
  qed
  then have r_tokenSymbols:
      "z_optional TokenConfigSchema (js_get ?r ''tokenSymbols'') = Inr (js_get ?r ''tokenSymbols'')"
    and arr_tokenSymbols: "\<exists>xs. js_get ?r ''tokenSymbols'' = JArr xs"
    by (simp_all add: js_get_transform_tokenSymbols [OF dist])
  have r_chains: "js_get ?r ''chains'' = JUndefined" and r_tokens: "js_get ?r ''tokens'' = JUndefined"
    by (simp_all add: js_get_def [of ?r] map_of_transform_dropped [OF dist])
  have r_redirectUrl: "z_optional (z_string_url e) (js_get ?r ''redirectUrl'') = Inr (js_get ?r ''redirectUrl'')"
    unfolding js_get_transform_known [OF dist, of "''redirectUrl''", simplified]
    using z_string_url_identity redirectUrl by (rule optional_identity)
  have r_currency: "z_optional z_string (js_get ?r ''currency'') = Inr (js_get ?r ''currency'')"
    unfolding js_get_transform_known [OF dist, of "''currency''", simplified]
    using z_string_identity currency by (rule optional_identity)
  have r_amount: "z_optional z_number_nonnegative (js_get ?r ''amount'') = Inr (js_get ?r ''amount'')"
    unfolding js_get_transform_known [OF dist, of "''amount''", simplified]
    using z_number_nonnegative_identity amount by (rule optional_identity)
  have r_webhooks: "z_optional (z_array_max 15 (z_refine is_https (z_string_url e))) (js_get ?r ''webhooks'') =
      Inr (js_get ?r ''webhooks'')"
    unfolding js_get_transform_known [OF dist, of "''webhooks''", simplified]
    using webhooks_identity webhooks by (rule optional_identity)
  have r_og: "\<exists>v'. z_optional (z_object [(''baseUrl'', z_optional (z_string_url e))] None) (js_get ?r ''og'') = Inr v'"
    unfolding js_get_transform_known [OF dist, of "''og''", simplified]
    using og by (rule og_revalidates)
  have ok_r: "fields_ok e ?r"
    using r_og
    by (auto simp: fields_ok_def preferences_shape_def r_chainIds r_tokenSymbols r_chains r_tokens
        r_redirectUrl r_currency r_amount r_webhooks z_optional_def [of _ JUndefined])
  let ?d' = "parsed_data e ?r"
  let ?r' = "transform_result ?d'"
  have again: "validate e (JObj ?r) = Inr (JObj ?r')"
    by (simp add: validate_eq preferences_preprocess_def ok_r)
  have dist': "distinct (map fst ?d')" by (rule distinct_parsed_data)
  note field' = js_get_parsed_data [OF ok_r]
  have "z_optional (ChainConfigSchema e) (js_get ?r ''chains'') = Inr (js_get ?d' ''chains'')"
    by (rule field') (simp add: preferences_shape_def)
  then have d'_chains: "js_get ?d' ''chains'' = JUndefined"
    by (simp add: r_chains z_optional_def)
  have "z_optional (ChainConfigSchema e) (js_get ?r ''chainIds'') = Inr (js_get ?d' ''chainIds'')"
    by (rule field') (simp add: preferences_shape_def)
  then have d'_chainIds: "js_get ?d' ''chainIds'' = js_get ?r ''chainIds''"
    by (simp add: r_chainIds)
  have "z_optional TokenConfigSchema (js_get ?r ''tokens'') = Inr (js_get ?d' ''tokens'')"
    by (rule field') (simp add: preferences_shape_def)
  then have d'_tokens: "js_get ?d' ''tokens'' = JUndefined"
    by (simp add: r_tokens z_optional_def)
  have "z_optional TokenConfigSchema (js_get ?r ''tokenSymbols'') = Inr (js_get ?d' ''tokenSymbols'')"
    by (rule field') (simp add: preferences_shape_def)
  then have d'_tokenSymbols: "js_get ?d' ''tokenSymbols'' = js_get ?r ''tokenSymbols''"
    by (simp add: r_tokenSymbols)
  have same_chainIds: "js_get ?r' ''chainIds'' = js_get ?r ''chainIds''"
    using arr_chainIds
    by (auto simp: js_get_transform_chainIds [OF dist'] d'_chains d'_chainIds nullish_def)
  have same_tokenSymbols: "js_get ?r' ''tokenSymbols'' = js_get ?r ''tokenSymbols''"
    using arr_tokenSymbols
    by (auto simp: js_get_transform_tokenSymbols [OF dist'] d'_tokens d'_tokenSymbols nullish_def)
  from again out same_chainIds same_tokenSymbols show ?thesis by blast
qed


theorem validate_idempotent_witness:
  "validate small_engine
     (JObj [(''chains'', JArr [JNum (Fin 1)]), (''chainIds'', JArr [JNum (Fin 137)]),
            (''tokens'', JStr ''USDC, DAI''), (''memo'', JStr ''x'')]) =
   Inr (JObj [(''chainIds'', JArr [JNum (Fin 1)]),
              (''tokenSymbols'', JArr [JStr ''USDC'', JStr ''DAI'']),
              (''memo'', JStr ''x'')]) \<and>
   (\<exists>again r r'.
     validate small_engine
       (JObj [(''chainIds'', JArr [JNum (Fin 1)]),
              (''tokenSymbols'', JArr [JStr ''USDC'', JStr ''DAI'']),
              (''memo'', JStr ''x'')]) = Inr again \<and>
     JObj [(''chainIds'', JArr [JNum (Fin 1)]),
           (''tokenSymbols'', JArr [JStr ''USDC'', JStr ''DAI'']),
           (''memo'', JStr ''x'')] = JObj r \<and>
     again = JObj r' \<and>
     js_get r' ''chainIds'' = js_get r ''chainIds'' \<and>
     js_get r' ''tokenSymbols'' = js_get r ''tokenSymbols'')"
  using validate_idempotent [OF validate_example] validate_example by blast

section \<open>The preferences schema: failure conditions\<close>

lemma optional_ok: "\<not> isl (z_optional inner x) \<longleftrightarrow> x = JUndefined \<or> \<not> isl (inner x)"
  by (simp add: z_optional_def)

lemma chain_field_ok:
  "\<not> isl (z_optional (ChainConfigSchema e) x) \<longleftrightarrow> \<not> wrong_type (chain_field_shape e) x"
  by (cases "chain_preprocess e x")
     (simp_all add: optional_ok ChainConfigSchema_eq wrong_type_def chain_field_shape_def
        is_array_of_def)

lemma is_string_iff: "is_string x \<longleftrightarrow> (\<exists>s. x = JStr s)"
  by (cases x) (simp_all add: is_string_def)

lemma token_field_ok:
  "\<not> isl (z_optional TokenConfigSchema x) \<longleftrightarrow> \<not> wrong_type token_field_shape x"
proof -
  have "is_string = (\<lambda>x. \<exists>s. x = JStr s)"
    by (rule ext) (rule is_string_iff)
  then show ?thesis
    by (cases "token_preprocess x")
       (simp_all add: optional_ok TokenConfigSchema_eq wrong_type_def token_field_shape_def
          is_array_of_def)
qed

lemma url_field_ok:
  "\<not> isl (z_optional (z_string_url e) x) \<longleftrightarrow> \<not> (wrong_type is_string x \<or> invalid_url e x)"
  by (cases x)
     (simp_all add: optional_ok z_string_url_def wrong_type_def is_string_def invalid_url_def)

lemma string_field_ok:
  "\<not> isl (z_optional z_string x) \<longleftrightarrow> \<not> wrong_type is_string x"
  by (cases x) (simp_all add: optional_ok z_string_def wrong_type_def is_string_def)

lemma amount_field_ok:
  "\<not> isl (z_optional z_number_nonnegative x) \<longleftrightarrow>
     \<not> (wrong_type isValidNumber x \<or> negative_amount x)"
  by (cases x)
     (auto simp: optional_ok z_number_nonnegative_def wrong_type_def isValidNumber_def
        negative_amount_def is_negative_def)

lemma webhook_element:
  "z_refine is_https (z_string_url e) x =
     (if is_string x \<and> \<not> not_https_url e x then Inr x else Inl ValidationError)"
  by (cases x)
     (simp_all add: z_refine_def z_string_url_def is_https_def is_string_def not_https_url_def)

lemma list_all_webhooks:
  "list_all (\<lambda>x. is_string x \<and> \<not> not_https_url e x) xs \<longleftrightarrow>
     list_all is_string xs \<and> \<not> list_ex (not_https_url e) xs"
  by (induction xs) auto

lemma webhooks_field_ok:
  "\<not> isl (z_optional (z_array_max 15 (z_refine is_https (z_string_url e))) x) \<longleftrightarrow>
     \<not> (wrong_type (is_array_of is_string) x \<or> too_many_webhooks x \<or> webhook_not_https e x)"
proof (cases x)
  case (JArr xs)
  show ?thesis
    by (auto simp: JArr optional_ok z_array_max_def z_array_def
        all_valid_map_test [OF webhook_element] list_all_webhooks wrong_type_def is_array_of_def
        too_many_webhooks_def webhook_not_https_def)
qed (simp_all add: optional_ok z_array_max_def wrong_type_def is_array_of_def
      too_many_webhooks_def webhook_not_https_def)

lemma og_object_ok:
  "\<not> isl (z_object [(''baseUrl'', z_optional (z_string_url e))] None (JObj og)) \<longleftrightarrow>
     \<not> (wrong_type is_string (js_get og ''baseUrl'') \<or> invalid_url e (js_get og ''baseUrl''))"
  by (simp add: z_object_eq object_pairs_def url_field_ok)

lemma og_field_ok:
  "\<not> isl (z_optional (z_object [(''baseUrl'', z_optional (z_string_url e))] None) x) \<longleftrightarrow>
     \<not> (wrong_type og_field_shape x \<or>
        (case x of JObj og \<Rightarrow> invalid_url e (js_get og ''baseUrl'') | _ \<Rightarrow> False))"
proof (cases x)
  case (JObj og)
  show ?thesis
    unfolding JObj optional_ok og_object_ok
    by (auto simp: wrong_type_def og_field_shape_def)
qed (simp_all add: optional_ok z_object_def wrong_type_def og_field_shape_def)

lemma fields_ok_iff:
  "fields_ok e props \<longleftrightarrow> \<not> failure_conditions e (JObj props)"
  unfolding fields_ok_def preferences_shape_def failure_conditions_def
    claimed_failure_conditions_def invalid_og_baseUrl_def field_type_mismatch_def
  by (simp add: chain_field_ok token_field_ok url_field_ok string_field_ok amount_field_ok
      webhooks_field_ok og_field_ok) blast


lemma validate_fails_iff:
  "validate e input = Inl ValidationError \<longleftrightarrow>
     failure_conditions e (preferences_preprocess e input)"
  by (cases "preferences_preprocess e input")
     (simp_all add: validate_eq fields_ok_iff failure_conditions_def
        claimed_failure_conditions_def)

lemma validate_error_kind: "validate e input = Inl err \<Longrightarrow> err = ValidationError"
  by (cases "preferences_preprocess e input") (auto simp: validate_eq split: if_splits)

lemma js_get_single: "js_get [(k, v)] k' = (if k' = k then v else JUndefined)"
  by (simp add: js_get_def)

lemma validate_accepts_iff:
  "(\<exists>out. validate e input = Inr out) \<longleftrightarrow>
     \<not> failure_conditions e (preferences_preprocess e input)"
proof (cases "validate e input")
  case (Inl err)
  then have "validate e input = Inl ValidationError"
    using validate_error_kind by blast
  with Inl show ?thesis by (simp add: validate_fails_iff [symmetric])
next
  case (Inr out)
  then show ?thesis by (simp add: validate_fails_iff [symmetric])
qed

lemma redirect_only:
  "failure_conditions e (JObj [(''redirectUrl'', JStr s)]) \<longleftrightarrow> \<not> url_parses e s"
  by (simp add: failure_conditions_def claimed_failure_conditions_def invalid_og_baseUrl_def
      field_type_mismatch_def js_get_single wrong_type_def webhook_not_https_def
      too_many_webhooks_def invalid_url_def negative_amount_def is_string_def)

lemma webhooks_only:
  assumes "list_all (\<lambda>w. url_parses e w \<and> startsWith w ''https://'') ws"
  shows "failure_conditions e (JObj [(''webhooks'', JArr (map JStr ws))]) \<longleftrightarrow> length ws > 15"
proof -
  have strings: "list_all is_string (map JStr ws)"
    by (induction ws) (simp_all add: is_string_def)
  have https: "\<not> list_ex (not_https_url e) (map JStr ws)"
    using assms by (induction ws) (simp_all add: not_https_url_def)
  show ?thesis
    by (simp add: failure_conditions_def claimed_failure_conditions_def invalid_og_baseUrl_def
        field_type_mismatch_def js_get_single wrong_type_def webhook_not_https_def
        too_many_webhooks_def invalid_url_def negative_amount_def is_array_of_def strings https)
qed

text \<open>
  C3 (amended). \<open>validate\<close> fails, and then with a ValidationError, exactly when after
  preprocessing: some webhook is not an https URL, there are more than 15 webhooks,
  \<open>redirectUrl\<close> is a string that is not a URL, \<open>og.baseUrl\<close> is a string that is not a
  URL, \<open>amount\<close> is negative, or the input or one of its fields does not have its
  expected type. An input whose only field is a list of valid https webhooks is accepted
  when the list has 15 entries and rejected when it has 16; a \<open>redirectUrl\<close> that is a
  URL is accepted whatever its scheme.
\<close>

theorem validate_failure_conditions:
  "(validate e input = Inl ValidationError \<longleftrightarrow>
      failure_conditions e (preferences_preprocess e input)) \<and>
   (\<forall>err. validate e input = Inl err \<longrightarrow> err = ValidationError) \<and>
   (list_all (\<lambda>w. url_parses e w \<and> startsWith w ''https://'') ws \<longrightarrow>
      (length ws = 15 \<longrightarrow> (\<exists>out. validate e (JObj [(''webhooks'', JArr (map JStr ws))]) = Inr out)) \<and>
      (length ws = 16 \<longrightarrow> validate e (JObj [(''webhooks'', JArr (map JStr ws))]) = Inl ValidationError) \<and>
      ((\<exists>out. validate e (JObj [(''webhooks'', JArr (map JStr ws))]) = Inr out) \<longleftrightarrow>
         length ws \<le> 15)) \<and>
   (url_parses e url \<longrightarrow> (\<exists>out. validate e (JObj [(''redirectUrl'', JStr url)]) = Inr out))"
proof (intro conjI allI impI)
  assume "url_parses e url"
  then show "\<exists>out. validate e (JObj [(''redirectUrl'', JStr url)]) = Inr out"
    by (simp add: validate_accepts_iff preferences_preprocess_def redirect_only)
next
  show "validate e input = Inl ValidationError \<longleftrightarrow>
      failure_conditions e (preferences_preprocess e input)"
    by (rule validate_fails_iff)
next
  fix err assume "validate e input = Inl err"
  then show "err = ValidationError" by (rule validate_error_kind)
next
  let ?input = "JObj [(''webhooks'', JArr (map JStr ws))]"
  assume valid: "list_all (\<lambda>w. url_parses e w \<and> startsWith w ''https://'') ws"
  have pre: "preferences_preprocess e ?input = ?input"
    by (simp add: preferences_preprocess_def)
  have fails: "validate e ?input = Inl ValidationError \<longleftrightarrow> length ws > 15"
    unfolding validate_fails_iff pre using valid by (rule webhooks_only)
  have accepted: "(\<exists>out. validate e ?input = Inr out) \<longleftrightarrow> length ws \<le> 15"
  proof (cases "validate e ?input")
    case (Inl err)
    then have "validate e ?input = Inl ValidationError"
      using validate_error_kind by blast
    with fails Inl show ?thesis by auto
  next
    case (Inr out)
    with fails show ?thesis by auto
  qed
  show "(\<exists>out. validate e ?input = Inr out) \<longleftrightarrow> length ws \<le> 15"
    by (rule accepted)
  { assume "length ws = 15"
    with accepted show "\<exists>out. validate e ?input = Inr out" by simp }
  { assume "length ws = 16"
    with fails show "validate e ?input = Inl ValidationError" by simp }
qed

lemma hook_url: "small_url_parses ''https://example.com/hook'' \<and>
   startsWith ''https://example.com/hook'' ''https://''"
  by (simp add: small_url_parses_def startsWith_def Let_def is_lower_def is_digit_def)

lemma nope_url: "\<not> small_url_parses ''nope''"
  by (simp add: small_url_parses_def startsWith_def Let_def)

lemma replicate_15: "replicate 15 x = [x, x, x, x, x, x, x, x, x, x, x, x, x, x, x]"
  by (simp add: numeral_eq_Suc)

lemma replicate_16: "replicate 16 x = [x, x, x, x, x, x, x, x, x, x, x, x, x, x, x, x]"
  by (simp add: numeral_eq_Suc)

lemma redirect_url: "small_url_parses ''http://example.com/redirect''"
  by (simp add: small_url_parses_def startsWith_def Let_def is_lower_def is_digit_def)

theorem validate_failure_conditions_witness:
  "url_parses small_engine ''http://example.com/redirect'' \<and>
   (\<exists>out. validate small_engine (JObj [(''redirectUrl'', JStr ''http://example.com/redirect'')]) =
      Inr out) \<and>
   list_all (\<lambda>w. url_parses small_engine w \<and> startsWith w ''https://'')
     (replicate 15 ''https://example.com/hook'') \<and>
   (\<exists>out. validate small_engine
      (JObj [(''webhooks'', JArr (map JStr (replicate 15 ''https://example.com/hook'')))]) = Inr out) \<and>
   list_all (\<lambda>w. url_parses small_engine w \<and> startsWith w ''https://'')
     (replicate 16 ''https://example.com/hook'') \<and>
   validate small_engine
      (JObj [(''webhooks'', JArr (map JStr (replicate 16 ''https://example.com/hook'')))]) =
     Inl ValidationError \<and>
   failure_conditions small_engine
     (preferences_preprocess small_engine
        (JObj [(''webhooks'', JArr (map JStr (replicate 16 ''https://example.com/hook'')))]))"
proof -
  have valid: "list_all (\<lambda>w. url_parses small_engine w \<and> startsWith w ''https://'')
     (replicate n ''https://example.com/hook'')" for n
    by (induction n) (simp_all add: small_engine_simps hook_url)
  from validate_failure_conditions
      [of small_engine
          "JObj [(''webhooks'', JArr (map JStr (replicate 16 ''https://example.com/hook'')))]"
          "replicate 16 ''https://example.com/hook''" "''http://example.com/redirect''"]
    validate_failure_conditions
      [of small_engine
          "JObj [(''webhooks'', JArr (map JStr (replicate 15 ''https://example.com/hook'')))]"
          "replicate 15 ''https://example.com/hook''"]
    valid [of 15] valid [of 16] redirect_url
  show ?thesis by (auto simp: small_engine_simps)
qed

text \<open>
  The claim as stated leaves out \<open>og.baseUrl\<close>: this input fails validation, and none of
  the conditions the claim lists holds of it.
\<close>

theorem validate_og_baseUrl_counterexample:
  "validate small_engine (JObj [(''og'', JObj [(''baseUrl'', JStr ''nope'')])]) =
     Inl ValidationError \<and>
   \<not> claimed_failure_conditions small_engine
       (preferences_preprocess small_engine (JObj [(''og'', JObj [(''baseUrl'', JStr ''nope'')])]))"
proof -
  have pre: "preferences_preprocess small_engine (JObj [(''og'', JObj [(''baseUrl'', JStr ''nope'')])]) =
      JObj [(''og'', JObj [(''baseUrl'', JStr ''nope'')])]"
    by (simp add: preferences_preprocess_def)
  have claimed: "\<not> claimed_failure_conditions small_engine
      (JObj [(''og'', JObj [(''baseUrl'', JStr ''nope'')])])"
    by (simp add: claimed_failure_conditions_def field_type_mismatch_def js_get_single
        wrong_type_def webhook_not_https_def too_many_webhooks_def invalid_url_def
        negative_amount_def og_field_shape_def is_string_def)
  have "failure_conditions small_engine (JObj [(''og'', JObj [(''baseUrl'', JStr ''nope'')])])"
    by (simp add: failure_conditions_def invalid_og_baseUrl_def js_get_single invalid_url_def
        small_engine_simps nope_url)
  then have "validate small_engine (JObj [(''og'', JObj [(''baseUrl'', JStr ''nope'')])]) =
      Inl ValidationError"
    by (simp add: validate_fails_iff pre)
  with claimed pre show ?thesis by simp
qed

section \<open>The text serializer: properties\<close>

lemma copy_properties_fold:
  "copy_properties preferences init = foldl (copy_step preferences) init (map fst preferences)"
proof -
  have "copy_step preferences =
      (\<lambda>acc key.
          if key \<noteq> ''chainIds'' \<and> key \<noteq> ''tokenSymbols'' \<and> key \<noteq> ''__proto__''
          then AList.update key (js_get preferences key) acc else acc)"
    by (intro ext) (simp add: copy_step_def)
  then show ?thesis
    by (simp add: copy_properties_def)
qed

lemma map_of_copy_fold:
  "map_of (foldl (copy_step preferences) init keys) k =
     (if k \<in> set keys \<and> k \<noteq> ''chainIds'' \<and> k \<noteq> ''tokenSymbols'' \<and> k \<noteq> ''__proto__''
      then Some (js_get preferences k) else map_of init k)"
proof (induction keys arbitrary: init)
  case Nil
  show ?case by simp
next
  case (Cons key keys)
  have step: "map_of (copy_step preferences init key) k =
      (if k = key \<and> k \<noteq> ''chainIds'' \<and> k \<noteq> ''tokenSymbols'' \<and> k \<noteq> ''__proto__''
       then Some (js_get preferences k) else map_of init k)"
    by (auto simp: copy_step_def update_conv')
  have "map_of (foldl (copy_step preferences) init (key # keys)) k =
      (if k \<in> set keys \<and> k \<noteq> ''chainIds'' \<and> k \<noteq> ''tokenSymbols'' \<and> k \<noteq> ''__proto__''
       then Some (js_get preferences k) else map_of (copy_step preferences init key) k)"
    using Cons.IH [of "copy_step preferences init key"] by simp
  also have "\<dots> =
      (if k \<in> set (key # keys) \<and> k \<noteq> ''chainIds'' \<and> k \<noteq> ''tokenSymbols'' \<and> k \<noteq> ''__proto__''
       then Some (js_get preferences k) else map_of init k)"
    unfolding step by auto
  finally show ?case .
qed

lemma map_of_copy_properties:
  "map_of (copy_properties preferences init) k =
     (if js_has preferences k \<and> k \<noteq> ''chainIds'' \<and> k \<noteq> ''tokenSymbols'' \<and> k \<noteq> ''__proto__''
      then Some (js_get preferences k) else map_of init k)"
proof -
  have "js_has preferences k \<longleftrightarrow> k \<in> set (map fst preferences)"
    by (simp add: js_has_def map_of_eq_None_iff)
  then show ?thesis
    by (simp only: copy_properties_fold map_of_copy_fold)
qed

lemma distinct_copy_properties:
  "distinct (map fst init) \<Longrightarrow> distinct (map fst (copy_properties preferences init))"
proof -
  have "distinct (map fst init) \<Longrightarrow> distinct (map fst (foldl (copy_step preferences) init keys))"
    for keys
    by (induction keys arbitrary: init) (simp_all add: copy_step_def distinct_update)
  then show "distinct (map fst init) \<Longrightarrow> ?thesis"
    by (simp add: copy_properties_fold)
qed

lemma formattedPreferences_Inr:
  assumes "formattedPreferences e preferences = Inr obj"
  obtains processed tokens where "processedChains preferences = Inr processed"
    and "tokens_entry e preferences = Inr tokens"
    and "obj = remove_undefined (copy_properties preferences
            [(''tokens'', tokens), (''chains'', chains_entry e processed)])"
  using assms by (auto simp: formattedPreferences_def split: sum.splits)

lemma map_of_formatted:
  assumes "processedChains preferences = Inr processed"
    and "tokens_entry e preferences = Inr tokens"
  shows "map_of (remove_undefined (copy_properties preferences
            [(''tokens'', tokens), (''chains'', chains_entry e processed)])) k =
     (let v = (if js_has preferences k \<and> k \<noteq> ''chainIds'' \<and> k \<noteq> ''tokenSymbols'' \<and>
                  k \<noteq> ''__proto__''
               then Some (js_get preferences k)
               else if k = ''tokens'' then Some tokens
               else if k = ''chains'' then Some (chains_entry e processed)
               else None)
      in case v of Some w \<Rightarrow> if w = JUndefined then None else Some w | None \<Rightarrow> None)"
proof -
  have "distinct (map fst (copy_properties preferences
            [(''tokens'', tokens), (''chains'', chains_entry e processed)]))"
    by (rule distinct_copy_properties) simp
  then show ?thesis
    by (simp add: map_of_remove_undefined map_of_copy_properties Let_def)
qed

lemma no_undefined_values:
  "(k, v) \<in> set (remove_undefined obj) \<Longrightarrow> v \<noteq> JUndefined"
  by (auto simp: remove_undefined_def)


lemma short_name_nonempty: "chainIdToShortName n = Some s \<Longrightarrow> s \<noteq> []"
  by (auto simp: chainIdToShortName_def registry_defs split: if_splits)

lemma short_names_of_numbers:
  "filter truthy (map (short_name_value \<circ> JNum) ids) =
     map JStr (List.map_filter chainIdToShortName ids)"
proof (induction ids)
  case Nil
  show ?case by (simp add: map_filter_simps)
next
  case (Cons n ids)
  show ?case
  proof (cases "chainIdToShortName n")
    case None
    with Cons show ?thesis
      by (simp add: map_filter_simps short_name_value_def truthy_def)
  next
    case (Some s)
    then have "s \<noteq> []" by (rule short_name_nonempty)
    with Some Cons show ?thesis
      by (simp add: map_filter_simps short_name_value_def truthy_def)
  qed
qed

lemma join_strings: "arrayToCommaString e (map JStr names) = join_with '','' names"
proof -
  have "map (join_element e) (map JStr names) = names"
    by (induction names) simp_all
  then show ?thesis by (simp only: arrayToCommaString_def)
qed

lemma processedChains_numbers:
  "js_get preferences ''chainIds'' = JArr (map JNum ids) \<Longrightarrow>
   processedChains preferences = Inr (Some (map JStr (List.map_filter chainIdToShortName ids)))"
  by (simp add: processedChains_def short_names_of_numbers)

lemma processedChains_undefined:
  "js_get preferences ''chainIds'' = JUndefined \<Longrightarrow> processedChains preferences = Inr None"
  by (simp add: processedChains_def)

lemma chains_entry_names:
  "chains_entry e (Some (map JStr names)) =
     (if names = [] then JUndefined else JStr (join_with '','' names))"
  by (simp add: chains_entry_def join_strings)

lemma tokens_entry_strings:
  "js_get preferences ''tokenSymbols'' = JArr (map JStr symbols) \<Longrightarrow>
   tokens_entry e preferences = Inr (JStr (join_with '','' symbols))"
  by (simp add: tokens_entry_def truthy_def join_strings)

lemma tokens_entry_undefined:
  "js_get preferences ''tokenSymbols'' = JUndefined \<Longrightarrow>
   tokens_entry e preferences = Inr JUndefined"
  by (simp add: tokens_entry_def truthy_def)

lemma serializer_example:
  \<open>convertPreferencesToText e
     [(''chainIds'', JArr [JNum (Fin 1), JNum (Fin 10)]),
      (''tokenSymbols'', JArr [JStr ''ETH'', JStr ''DAI''])] =
   Inr ''{"tokens":"ETH,DAI","chains":"eth,oeth"}''\<close>
  by (simp add: convertPreferencesToText_def formattedPreferences_def processedChains_def
      tokens_entry_def chains_entry_def copy_properties_def remove_undefined_def js_get_def
      truthy_def short_name_value_def chainIdToShortName_def registry_defs strict_eq_num_def
      arrayToCommaString_def json_quote_def json_escape_def)


text \<open>
  C6 (amended). For an input of the documented shape (\<open>chainIds\<close> absent or an array of
  numbers, \<open>tokenSymbols\<close> absent or an array of strings) that has no \<open>tokens\<close> and no
  \<open>chains\<close> property of its own, the serializer returns the JSON text of an object in
  which \<open>chains\<close> is the comma-joined list of the short names of the ids that have one
  (no such key when \<open>chainIds\<close> is absent or no id has a short name), \<open>tokens\<close> is the
  comma-joined \<open>tokenSymbols\<close> (no such key when \<open>tokenSymbols\<close> is absent, the empty
  string for the empty list), and no value is \<open>undefined\<close>. The example of the
  specification gives the text claimed.
\<close>

theorem convertPreferencesToText_keys:
  assumes "\<not> js_has preferences ''tokens''" and "\<not> js_has preferences ''chains''"
    and "js_get preferences ''chainIds'' = JUndefined \<or>
         js_get preferences ''chainIds'' = JArr (map JNum ids)"
    and "js_get preferences ''tokenSymbols'' = JUndefined \<or>
         js_get preferences ''tokenSymbols'' = JArr (map JStr symbols)"
  shows \<open>(\<exists>obj.
      formattedPreferences e preferences = Inr obj \<and>
      convertPreferencesToText e preferences = Inr (json_text e (JObj obj)) \<and>
      map_of obj ''chains'' =
        (if js_get preferences ''chainIds'' = JUndefined \<or>
            List.map_filter chainIdToShortName ids = []
         then None
         else Some (JStr (join_with '','' (List.map_filter chainIdToShortName ids)))) \<and>
      map_of obj ''tokens'' =
        (if js_get preferences ''tokenSymbols'' = JUndefined then None
         else Some (JStr (join_with '','' symbols))) \<and>
      (\<forall>entry \<in> set obj. snd entry \<noteq> JUndefined)) \<and>
    convertPreferencesToText e
      [(''chainIds'', JArr [JNum (Fin 1), JNum (Fin 10)]),
       (''tokenSymbols'', JArr [JStr ''ETH'', JStr ''DAI''])] =
    Inr ''{"tokens":"ETH,DAI","chains":"eth,oeth"}''\<close>
proof -
  obtain processed where processed: "processedChains preferences = Inr processed"
    and chains: "chains_entry e processed =
        (if js_get preferences ''chainIds'' = JUndefined \<or>
            List.map_filter chainIdToShortName ids = []
         then JUndefined
         else JStr (join_with '','' (List.map_filter chainIdToShortName ids)))"
  proof (cases "js_get preferences ''chainIds'' = JUndefined")
    case True
    then have "processedChains preferences = Inr None" by (rule processedChains_undefined)
    moreover have "chains_entry e None = JUndefined" by (simp add: chains_entry_def)
    ultimately show ?thesis using True that by simp
  next
    case False
    with assms(3) have arr: "js_get preferences ''chainIds'' = JArr (map JNum ids)" by simp
    then have "processedChains preferences =
        Inr (Some (map JStr (List.map_filter chainIdToShortName ids)))"
      by (rule processedChains_numbers)
    then show ?thesis using that arr by (simp add: chains_entry_names)
  qed
  obtain tokens where tokens: "tokens_entry e preferences = Inr tokens"
    and tokens_value: "tokens =
        (if js_get preferences ''tokenSymbols'' = JUndefined then JUndefined
         else JStr (join_with '','' symbols))"
  proof (cases "js_get preferences ''tokenSymbols'' = JUndefined")
    case True
    then have "tokens_entry e preferences = Inr JUndefined" by (rule tokens_entry_undefined)
    then show ?thesis using True that by simp
  next
    case False
    with assms(4) have arr: "js_get preferences ''tokenSymbols'' = JArr (map JStr symbols)"
      by simp
    then have "tokens_entry e preferences = Inr (JStr (join_with '','' symbols))"
      by (rule tokens_entry_strings)
    then show ?thesis using that arr by simp
  qed
  let ?obj = "remove_undefined (copy_properties preferences
            [(''tokens'', tokens), (''chains'', chains_entry e processed)])"
  have formatted: "formattedPreferences e preferences = Inr ?obj"
    by (simp add: formattedPreferences_def processed tokens)
  then have serialized: "convertPreferencesToText e preferences = Inr (json_text e (JObj ?obj))"
    by (simp add: convertPreferencesToText_def)
  have m_chains: "map_of ?obj ''chains'' =
        (if js_get preferences ''chainIds'' = JUndefined \<or>
            List.map_filter chainIdToShortName ids = []
         then None
         else Some (JStr (join_with '','' (List.map_filter chainIdToShortName ids))))"
  proof -
    have "map_of ?obj ''chains'' =
        (if chains_entry e processed = JUndefined then None
         else Some (chains_entry e processed))"
      using assms(2) by (simp add: map_of_formatted [OF processed tokens])
    then show ?thesis by (simp add: chains)
  qed
  have m_tokens: "map_of ?obj ''tokens'' =
        (if js_get preferences ''tokenSymbols'' = JUndefined then None
         else Some (JStr (join_with '','' symbols)))"
  proof -
    have "map_of ?obj ''tokens'' = (if tokens = JUndefined then None else Some tokens)"
      using assms(1) by (simp add: map_of_formatted [OF processed tokens])
    then show ?thesis by (simp add: tokens_value)
  qed
  have defined: "\<forall>entry \<in> set ?obj. snd entry \<noteq> JUndefined"
    using no_undefined_values by force
  from formatted serialized m_chains m_tokens defined serializer_example show ?thesis
    by blast
qed

lemma serializer_values:
  "small_number_to_string (Fin 3) = ''3''"
  by (simp add: small_number_to_string_def)

lemma serializer_witness_text:
  \<open>convertPreferencesToText small_engine
     [(''chainIds'', JArr [JNum (Fin 1), JNum (Fin 5), JNum (Fin 10)]),
      (''tokenSymbols'', JArr []), (''amount'', JNum (Fin 3))] =
   Inr ''{"tokens":"","chains":"eth,oeth","amount":3}''\<close>
  by (simp add: convertPreferencesToText_def formattedPreferences_def processedChains_def
      tokens_entry_def chains_entry_def copy_properties_def remove_undefined_def js_get_def
      truthy_def short_name_value_def chainIdToShortName_def registry_defs strict_eq_num_def
      arrayToCommaString_def json_quote_def json_escape_def small_engine_simps
      serializer_values)

theorem convertPreferencesToText_keys_witness:
  \<open>convertPreferencesToText small_engine
     [(''chainIds'', JArr [JNum (Fin 1), JNum (Fin 5), JNum (Fin 10)]),
      (''tokenSymbols'', JArr []), (''amount'', JNum (Fin 3))] =
   Inr ''{"tokens":"","chains":"eth,oeth","amount":3}'' \<and>
   (\<exists>obj.
      formattedPreferences small_engine
        [(''chainIds'', JArr [JNum (Fin 1), JNum (Fin 5), JNum (Fin 10)]),
         (''tokenSymbols'', JArr []), (''amount'', JNum (Fin 3))] = Inr obj \<and>
      map_of obj ''chains'' = Some (JStr ''eth,oeth'') \<and>
      map_of obj ''tokens'' = Some (JStr []) \<and>
      (\<forall>entry \<in> set obj. snd entry \<noteq> JUndefined))\<close>
proof -
  let ?p = "[(''chainIds'', JArr [JNum (Fin 1), JNum (Fin 5), JNum (Fin 10)]),
      (''tokenSymbols'', JArr []), (''amount'', JNum (Fin 3))]"
  have names: "List.map_filter chainIdToShortName [Fin 1, Fin 5, Fin 10] = [''eth'', ''oeth'']"
    by (simp add: chainIdToShortName_def registry_defs strict_eq_num_def)
  have "\<not> js_has ?p ''tokens''" and "\<not> js_has ?p ''chains''"
    and "js_get ?p ''chainIds'' = JUndefined \<or>
         js_get ?p ''chainIds'' = JArr (map JNum [Fin 1, Fin 5, Fin 10])"
    and "js_get ?p ''tokenSymbols'' = JUndefined \<or>
         js_get ?p ''tokenSymbols'' = JArr (map JStr [])"
    by (simp_all add: js_has_def js_get_def)
  from convertPreferencesToText_keys [OF this, of small_engine]
  obtain obj where formatted: "formattedPreferences small_engine ?p = Inr obj"
    and m_chains: "map_of obj ''chains'' =
        (if js_get ?p ''chainIds'' = JUndefined \<or>
            List.map_filter chainIdToShortName [Fin 1, Fin 5, Fin 10] = []
         then None
         else Some (JStr (join_with '','' (List.map_filter chainIdToShortName [Fin 1, Fin 5, Fin 10]))))"
    and m_tokens: "map_of obj ''tokens'' =
        (if js_get ?p ''tokenSymbols'' = JUndefined then None
         else Some (JStr (join_with '','' [])))"
    and defined: "\<forall>entry \<in> set obj. snd entry \<noteq> JUndefined"
    by blast
  from m_chains have chains_value: "map_of obj ''chains'' = Some (JStr ''eth,oeth'')"
    unfolding names by (simp add: js_get_def)
  from m_tokens have tokens_value: "map_of obj ''tokens'' = Some (JStr [])"
    by (simp add: js_get_def)
  from formatted chains_value tokens_value defined serializer_witness_text
  show ?thesis by blast
qed

text \<open>
  The claim as stated fails on an input with \<open>tokens\<close> and \<open>chains\<close> properties of its
  own: the output has a \<open>chains\<close> key although \<open>chainIds\<close> is absent, and its \<open>tokens\<close>
  is not the joined \<open>tokenSymbols\<close>.
\<close>

theorem convertPreferencesToText_keys_counterexample:
  \<open>convertPreferencesToText small_engine
     [(''tokenSymbols'', JArr [JStr ''ETH'', JStr ''DAI'']),
      (''tokens'', JStr ''x''), (''chains'', JStr ''y'')] =
   Inr ''{"tokens":"x","chains":"y"}'' \<and>
   js_get [(''tokenSymbols'', JArr [JStr ''ETH'', JStr ''DAI'']),
           (''tokens'', JStr ''x''), (''chains'', JStr ''y'')] ''chainIds'' = JUndefined\<close>
  by (simp add: convertPreferencesToText_def formattedPreferences_def processedChains_def
      tokens_entry_def chains_entry_def copy_properties_def remove_undefined_def js_get_def
      truthy_def arrayToCommaString_def json_quote_def json_escape_def)

text \<open>
  C9. When the input of the serializer has a \<open>tokens\<close> or a \<open>chains\<close> property of its
  own and the serializer returns, the entry of the serialized object under that key is
  the input's own value, not the computed comma string (and there is no entry when the
  input's own value is \<open>undefined\<close>).
\<close>

theorem convertPreferencesToText_own_keys:
  assumes "key = ''tokens'' \<or> key = ''chains''" and "js_has preferences key"
    and "convertPreferencesToText e preferences = Inr text"
  shows "\<exists>obj.
     formattedPreferences e preferences = Inr obj \<and> text = json_text e (JObj obj) \<and>
     js_get obj key = js_get preferences key \<and>
     map_of obj key =
       (if js_get preferences key = JUndefined then None else Some (js_get preferences key))"
proof -
  from assms(3) obtain obj where formatted: "formattedPreferences e preferences = Inr obj"
    and serialized: "text = json_text e (JObj obj)"
    by (auto simp: convertPreferencesToText_def split: sum.splits)
  from formatted obtain processed tokens where
    parts: "processedChains preferences = Inr processed" "tokens_entry e preferences = Inr tokens"
    and obj: "obj = remove_undefined (copy_properties preferences
            [(''tokens'', tokens), (''chains'', chains_entry e processed)])"
    by (rule formattedPreferences_Inr)
  have m: "map_of obj key =
       (if js_get preferences key = JUndefined then None else Some (js_get preferences key))"
    unfolding obj using assms(1,2) by (auto simp: map_of_formatted [OF parts])
  then have "js_get obj key = js_get preferences key"
    by (simp add: js_get_def [of obj])
  with formatted serialized m show ?thesis by blast
qed

lemma own_keys_text:
  \<open>convertPreferencesToText small_engine
     [(''chainIds'', JArr [JNum (Fin 1)]), (''tokenSymbols'', JArr [JStr ''ETH'']),
      (''tokens'', JStr ''mine'')] =
   Inr ''{"tokens":"mine","chains":"eth"}''\<close>
  by (simp add: convertPreferencesToText_def formattedPreferences_def processedChains_def
      tokens_entry_def chains_entry_def copy_properties_def remove_undefined_def js_get_def
      truthy_def short_name_value_def chainIdToShortName_def registry_defs strict_eq_num_def
      arrayToCommaString_def json_quote_def json_escape_def)

theorem convertPreferencesToText_own_keys_witness:
  \<open>js_has [(''chainIds'', JArr [JNum (Fin 1)]), (''tokenSymbols'', JArr [JStr ''ETH'']),
           (''tokens'', JStr ''mine'')] ''tokens'' \<and>
   convertPreferencesToText small_engine
     [(''chainIds'', JArr [JNum (Fin 1)]), (''tokenSymbols'', JArr [JStr ''ETH'']),
      (''tokens'', JStr ''mine'')] =
   Inr ''{"tokens":"mine","chains":"eth"}'' \<and>
   (\<exists>obj.
      formattedPreferences small_engine
        [(''chainIds'', JArr [JNum (Fin 1)]), (''tokenSymbols'', JArr [JStr ''ETH'']),
         (''tokens'', JStr ''mine'')] = Inr obj \<and>
      ''{"tokens":"mine","chains":"eth"}'' = json_text small_engine (JObj obj) \<and>
      js_get obj ''tokens'' = JStr ''mine'' \<and>
      map_of obj ''tokens'' = Some (JStr ''mine''))\<close>
proof -
  let ?p = "[(''chainIds'', JArr [JNum (Fin 1)]), (''tokenSymbols'', JArr [JStr ''ETH'']),
      (''tokens'', JStr ''mine'')]"
  have has: "js_has ?p ''tokens''" by (simp add: js_has_def)
  have key: "''tokens'' = ''tokens'' \<or> ''tokens'' = ''chains''" by simp
  from convertPreferencesToText_own_keys [OF key has own_keys_text] has own_keys_text
  show ?thesis
    by (simp add: js_get_def [of ?p])
qed

section \<open>Numeric strings in a chain array\<close>

text \<open>
  A consequence of the unreachable numeric branch of \<open>resolveChainIdOrShortName\<close>: in an
  array, the strings \<open>"1"\<close> and \<open>"10"\<close> are dropped, whatever \<open>Number\<close> makes of them,
  while the comma string \<open>"1"\<close>, which the preprocessing turns into a number, is kept.
\<close>

lemma toLowerCase_10: "toLowerCase ''10'' = ''10''"
  by code_simp

theorem ChainConfigSchema_numeric_strings:
  "ChainConfigSchema e (JArr [JStr ''1'', JStr ''10'']) = Inr (JArr []) \<and>
   ChainConfigSchema small_engine (JStr ''1'') = Inr (JArr [JNum (Fin 1)])"
proof -
  have pre: "chain_preprocess small_engine (JStr ''1'') = JArr [JNum (Fin 1)]"
    by (simp add: chain_preprocess_def small_engine_simps commaStringToArray_def trim_def
        is_space_def small_to_number_def is_digit_def nat_of_digits_def digit_value_def)
  have in_array: "ChainConfigSchema e (JArr [JStr ''1'', JStr ''10'']) = Inr (JArr [])"
    by (simp add: ChainConfigSchema_eq chain_preprocess_def string_or_number_def
        resolve_element_def resolveChainIdOrShortName_def isValidNumber_def Let_def
        toLowerCase_1 toLowerCase_10 is_supported_def registry_defs
        object_prototype_names_def)
  have in_string: "ChainConfigSchema small_engine (JStr ''1'') = Inr (JArr [JNum (Fin 1)])"
    by (simp add: ChainConfigSchema_eq pre string_or_number_def resolve_element_def
        is_supported_def strict_eq_num_def registry_defs resolved_value_def)
  from in_array in_string show ?thesis by simp
qed

end
